theory Spec2Isabelle
  imports Complex_Main
begin

section \<open>Python values used by the bridge\<close>

text \<open>
  The exceptions that \<^verbatim>\<open>ambient_bridge.py\<close> raises, catches or lets pass.
  \<open>OtherException\<close> stands for any further subclass of \<^verbatim>\<open>Exception\<close>.
  \<^verbatim>\<open>CancelledError\<close>, \<^verbatim>\<open>KeyboardInterrupt\<close> and \<^verbatim>\<open>SystemExit\<close> derive from
  \<^verbatim>\<open>BaseException\<close> only, so an \<^verbatim>\<open>except Exception\<close> clause lets them pass.
\<close>

datatype exn =
    ZeroDivisionError
  | OverflowError
  | ValueError
  | TypeError
  | KeyError
  | UnicodeDecodeError
  | JSONDecodeError
  | QueueFull
  | QueueEmpty
  | CannotConnect
  | ConnectionFailed
  | ConnectionResetError
  | InvalidServerVersion
  | FileNotFoundError
  | OtherException
  | CancelledError
  | KeyboardInterrupt
  | SystemExit int

fun is_Exception :: "exn \<Rightarrow> bool" where
  "is_Exception CancelledError = False"
| "is_Exception KeyboardInterrupt = False"
| "is_Exception (SystemExit c) = False"
| "is_Exception e = True"

text \<open>
  A Python \<^verbatim>\<open>float\<close> is a binary64 value: a finite number, an infinity or a NaN.
  A finite float is represented by the rational it denotes (the sign of a zero is not
  kept). Arithmetic is the exact result rounded to the nearest binary64 value, ties to
  the even mantissa: 53 bits of mantissa, exponents from \<open>-1022\<close>, subnormal numbers
  below, and an infinity when the rounded magnitude reaches \<open>2^1024\<close>.
\<close>

datatype pyfloat = Finite rat | PosInf | NegInf | NaN

definition round_half_even :: "rat \<Rightarrow> int" where
  "round_half_even x =
     (let f = \<lfloor>x\<rfloor>; d = x - of_int f
      in if d < 1 / 2 then f
         else if 1 / 2 < d then f + 1
         else if even f then f else f + 1)"

text \<open>The exponent of a positive number: \<open>2^e \<le> x < 2^(e+1)\<close>.\<close>

function floor_log2 :: "rat \<Rightarrow> int" where
  "floor_log2 x =
     (if x \<le> 0 then 0
      else if 2 \<le> x then floor_log2 (x / 2) + 1
      else if x < 1 then floor_log2 (2 * x) - 1
      else 0)"
  by pat_completeness auto
termination
proof (relation "measure (\<lambda>x. nat (\<lfloor>x\<rfloor> + 2 * \<lceil>1 / x\<rceil>))")
  show "wf (measure (\<lambda>x::rat. nat (\<lfloor>x\<rfloor> + 2 * \<lceil>1 / x\<rceil>)))"
    by simp
next
  fix x :: rat
  assume "\<not> x \<le> 0" and x2: "2 \<le> x"
  have a: "\<lfloor>x / 2\<rfloor> < \<lfloor>x\<rfloor>"
  proof -
    have "x / 2 \<le> x - 1" using x2 by simp
    then have "\<lfloor>x / 2\<rfloor> \<le> \<lfloor>x - 1\<rfloor>" by (rule floor_mono)
    then show ?thesis by simp
  qed
  have b: "\<lceil>1 / (x / 2)\<rceil> = 1"
    using x2 by (intro ceiling_unique) simp_all
  have c: "\<lceil>1 / x\<rceil> = 1"
    using x2 by (intro ceiling_unique) simp_all
  have d: "2 \<le> \<lfloor>x\<rfloor>"
    using x2 by (simp add: le_floor_iff)
  have "\<lfloor>x / 2\<rfloor> + 2 * \<lceil>1 / (x / 2)\<rceil> < \<lfloor>x\<rfloor> + 2 * \<lceil>1 / x\<rceil>"
    using a b c by linarith
  moreover have "0 < \<lfloor>x\<rfloor> + 2 * \<lceil>1 / x\<rceil>"
    using c d by linarith
  ultimately have "nat (\<lfloor>x / 2\<rfloor> + 2 * \<lceil>1 / (x / 2)\<rceil>) < nat (\<lfloor>x\<rfloor> + 2 * \<lceil>1 / x\<rceil>)"
    by (simp only: zless_nat_conj)
  then show "(x / 2, x) \<in> measure (\<lambda>x. nat (\<lfloor>x\<rfloor> + 2 * \<lceil>1 / x\<rceil>))"
    by simp
next
  fix x :: rat
  assume pos: "\<not> x \<le> 0" and "\<not> 2 \<le> x" and x1: "x < 1"
  have f0: "\<lfloor>x\<rfloor> = 0"
    using pos x1 by (intro floor_unique) simp_all
  have f1: "\<lfloor>2 * x\<rfloor> \<le> 1"
  proof -
    have "2 * x < 2" using x1 by simp
    then have "\<lfloor>2 * x\<rfloor> < 2" by (simp add: floor_less_iff)
    then show ?thesis by simp
  qed
  have f2: "0 \<le> \<lfloor>2 * x\<rfloor>"
    using pos by simp
  have c: "\<lceil>1 / (2 * x)\<rceil> \<le> \<lceil>1 / x\<rceil> - 1"
  proof (cases "2 \<le> 1 / x")
    case True
    then have "1 / (2 * x) \<le> 1 / x - 1"
      by simp
    then have "\<lceil>1 / (2 * x)\<rceil> \<le> \<lceil>1 / x - 1\<rceil>"
      by (rule ceiling_mono)
    then show ?thesis by simp
  next
    case False
    have "\<lceil>1 / (2 * x)\<rceil> \<le> 1"
      using pos x1 False by (simp add: ceiling_le_iff field_simps)
    moreover have "2 \<le> \<lceil>1 / x\<rceil>"
    proof -
      have "1 < 1 / x" using pos x1 by simp
      then have "1 < \<lceil>1 / x\<rceil>" by (simp add: less_ceiling_iff)
      then show ?thesis by linarith
    qed
    ultimately show ?thesis by linarith
  qed
  have c0: "0 < \<lceil>1 / (2 * x)\<rceil>"
    using pos by simp
  have "\<lfloor>2 * x\<rfloor> + 2 * \<lceil>1 / (2 * x)\<rceil> < \<lfloor>x\<rfloor> + 2 * \<lceil>1 / x\<rceil>"
    using f0 f1 c by linarith
  moreover have "0 < \<lfloor>x\<rfloor> + 2 * \<lceil>1 / x\<rceil>"
    using f0 c c0 by linarith
  ultimately have "nat (\<lfloor>2 * x\<rfloor> + 2 * \<lceil>1 / (2 * x)\<rceil>) < nat (\<lfloor>x\<rfloor> + 2 * \<lceil>1 / x\<rceil>)"
    by (simp only: zless_nat_conj)
  then show "(2 * x, x) \<in> measure (\<lambda>x. nat (\<lfloor>x\<rfloor> + 2 * \<lceil>1 / x\<rceil>))"
    by simp
qed

declare floor_log2.simps [simp del]

definition round_binary64 :: "rat \<Rightarrow> pyfloat" where
  "round_binary64 x =
     (if x = 0 then Finite 0
      else
       (let a = \<bar>x\<bar>;
            e = max (floor_log2 a) (- 1022);
            ulp = 2 powi (e - 52);
            r = of_int (round_half_even (a / ulp)) * ulp
        in if 2 ^ 1024 \<le> r then (if 0 < x then PosInf else NegInf)
           else Finite (if 0 < x then r else - r)))"

definition float_of_int :: "int \<Rightarrow> exn + pyfloat" where
  \<comment> \<open>the conversion Python applies to the int operand of \<^verbatim>\<open>int * float\<close>\<close>
  "float_of_int n =
     (case round_binary64 (of_int n) of
        Finite r \<Rightarrow> Inr (Finite r)
      | _ \<Rightarrow> Inl OverflowError)"

fun float_mul :: "pyfloat \<Rightarrow> pyfloat \<Rightarrow> pyfloat" where
  \<comment> \<open>\<^verbatim>\<open>x * y\<close> on floats; it overflows to an infinity without raising\<close>
  "float_mul (Finite a) (Finite b) = round_binary64 (a * b)"
| "float_mul (Finite a) PosInf = (if a = 0 then NaN else if 0 < a then PosInf else NegInf)"
| "float_mul (Finite a) NegInf = (if a = 0 then NaN else if 0 < a then NegInf else PosInf)"
| "float_mul PosInf (Finite b) = (if b = 0 then NaN else if 0 < b then PosInf else NegInf)"
| "float_mul NegInf (Finite b) = (if b = 0 then NaN else if 0 < b then NegInf else PosInf)"
| "float_mul PosInf PosInf = PosInf"
| "float_mul PosInf NegInf = NegInf"
| "float_mul NegInf PosInf = NegInf"
| "float_mul NegInf NegInf = PosInf"
| "float_mul NaN y = NaN"
| "float_mul x NaN = NaN"

fun float_less :: "pyfloat \<Rightarrow> pyfloat \<Rightarrow> bool" where
  \<comment> \<open>\<^verbatim>\<open>x < y\<close> on floats; every comparison with a NaN is false\<close>
  "float_less (Finite a) (Finite b) = (a < b)"
| "float_less (Finite a) PosInf = True"
| "float_less NegInf (Finite b) = True"
| "float_less NegInf PosInf = True"
| "float_less x y = False"

fun float_le :: "pyfloat \<Rightarrow> pyfloat \<Rightarrow> bool" where
  \<comment> \<open>\<^verbatim>\<open>x <= y\<close> on floats\<close>
  "float_le NaN y = False"
| "float_le x NaN = False"
| "float_le x y = (\<not> float_less y x)"

definition py_min :: "pyfloat \<Rightarrow> pyfloat \<Rightarrow> pyfloat" where
  \<comment> \<open>\<^verbatim>\<open>min(x, y)\<close>: the second argument if it is less than the first, else the first\<close>
  "py_min x y = (if float_less y x then y else x)"

fun int_of_float :: "pyfloat \<Rightarrow> exn + int" where
  \<comment> \<open>\<^verbatim>\<open>int(x)\<close> on a float truncates toward zero\<close>
  "int_of_float (Finite q) = Inr (if 0 \<le> q then \<lfloor>q\<rfloor> else \<lceil>q\<rceil>)"
| "int_of_float PosInf = Inl OverflowError"
| "int_of_float NegInf = Inl OverflowError"
| "int_of_float NaN = Inl ValueError"

section \<open>Conversion utilities\<close>

text \<open>
  \<^verbatim>\<open>kelvin_to_mireds\<close>: \<^verbatim>\<open>1_000_000 / kelvin\<close> is Python's true division of two ints,
  the correctly rounded quotient, and raises \<^verbatim>\<open>ZeroDivisionError\<close> on a zero divisor.
  For a nonzero divisor \<open>k\<close> the quotient is either an integer of magnitude at most
  \<open>10^6\<close>, which binary64 holds exactly, or at least \<open>1 / \<bar>k\<bar>\<close> away from the next
  integer of larger magnitude, which is more than the rounding error
  \<open>10^6 / \<bar>k\<bar> * 2^-53\<close>; so truncating the rounded quotient and truncating the exact
  quotient give the same integer, and the model truncates the exact quotient.
\<close>

definition kelvin_to_mireds :: "int \<Rightarrow> int \<Rightarrow> int \<Rightarrow> exn + int" where
  "kelvin_to_mireds kelvin min_kelvin max_kelvin =
     (let kelvin = max min_kelvin (min max_kelvin kelvin)
      in if kelvin = 0 then Inl ZeroDivisionError
         else int_of_float (Finite (1000000 / of_int kelvin)))"

definition clamp_brightness :: "int \<Rightarrow> rat \<Rightarrow> exn + int" where
  \<comment> \<open>\<open>multiplier\<close> is the value of the zone's float\<close>
  "clamp_brightness raw multiplier =
     (case float_of_int raw of
        Inl e \<Rightarrow> Inl e
      | Inr x \<Rightarrow>
          (case int_of_float (float_mul x (Finite multiplier)) of
             Inl e \<Rightarrow> Inl e
           | Inr t \<Rightarrow> Inr (max 0 (min 254 t))))"

text \<open>
  The converter as the specification words it: clamp, then \<^verbatim>\<open>round(1_000_000 / kelvin)\<close>,
  with Python's \<^verbatim>\<open>round\<close> (ties go to the even integer).
\<close>

definition colorTemperatureToProtocolUnits_spec :: "int \<Rightarrow> int \<Rightarrow> int \<Rightarrow> int" where
  "colorTemperatureToProtocolUnits_spec kelvin minKelvin maxKelvin =
     round_half_even (1000000 / of_int (max minKelvin (min maxKelvin kelvin)))"

section \<open>Data classes\<close>

record ZoneConfig =
  name :: string
  node_ids :: "int list"
  endpoint_id :: int
  brightness_multiplier :: rat
  min_kelvin :: int
  max_kelvin :: int

text \<open>Tracks the last-sent state for deduplication; \<open>-1\<close> means never sent.\<close>

record ZoneState =
  last_mireds :: int
  last_brightness :: int

definition ZoneState_init :: ZoneState where
  \<comment> \<open>the dataclass defaults: \<^verbatim>\<open>ZoneState()\<close>\<close>
  "ZoneState_init = \<lparr>last_mireds = - 1, last_brightness = - 1\<rparr>"

text \<open>
  The floats of a loaded configuration are taken to be finite and are represented by
  their rational values, which are binary64 values.
\<close>

record BridgeConfig =
  matter_server_url :: string
  udp_listen_ip :: string
  udp_listen_port :: int
  reconnect_initial_delay :: rat
  reconnect_max_delay :: rat
  reconnect_multiplier :: rat
  dedup_mireds_threshold :: int
  dedup_brightness_threshold :: int
  zones :: "string \<rightharpoonup> ZoneConfig"

record UdpCommand =
  zone :: string
  kelvin :: int
  brightness :: int
  transition :: int

section \<open>The command queue\<close>

text \<open>
  \<^verbatim>\<open>asyncio.Queue(maxsize)\<close> of the standard library, as its documentation describes it:
  a FIFO whose \<^verbatim>\<open>put_nowait\<close> raises \<^verbatim>\<open>QueueFull\<close> when the queue is full and whose
  \<^verbatim>\<open>get_nowait\<close> removes the oldest item or raises \<^verbatim>\<open>QueueEmpty\<close>; a \<open>maxsize\<close>
  of zero or less means no bound.
\<close>

record 'a Queue =
  maxsize :: int
  items :: "'a list"

definition Queue_init :: "int \<Rightarrow> 'a Queue" where
  "Queue_init n = \<lparr>maxsize = n, items = []\<rparr>"

definition qsize :: "'a Queue \<Rightarrow> nat" where
  "qsize q = length (items q)"

definition queue_empty :: "'a Queue \<Rightarrow> bool" where
  "queue_empty q = (items q = [])"

definition queue_full :: "'a Queue \<Rightarrow> bool" where
  "queue_full q = (if maxsize q \<le> 0 then False else maxsize q \<le> int (qsize q))"

definition put_nowait :: "'a Queue \<Rightarrow> 'a \<Rightarrow> exn + 'a Queue" where
  "put_nowait q item =
     (if queue_full q then Inl QueueFull else Inr (q\<lparr>items := items q @ [item]\<rparr>))"

definition get_nowait :: "'a Queue \<Rightarrow> exn + ('a \<times> 'a Queue)" where
  "get_nowait q =
     (case items q of
        [] \<Rightarrow> Inl QueueEmpty
      | x # xs \<Rightarrow> Inr (x, q\<lparr>items := xs\<rparr>))"

section \<open>The UDP protocol\<close>

text \<open>
  What \<^verbatim>\<open>json.loads\<close> returns: \<^verbatim>\<open>None\<close>, a bool, an int, a float (the literals
  \<^verbatim>\<open>Infinity\<close>, \<^verbatim>\<open>-Infinity\<close> and \<^verbatim>\<open>NaN\<close> and out-of-range numbers such as
  \<^verbatim>\<open>1e999\<close> are accepted and give the non-finite floats), a str, a list, or a dict,
  here an association list read with \<open>map_of\<close>.
\<close>

datatype json =
    JNull
  | JBool bool
  | JInt int
  | JFloat pyfloat
  | JString string
  | JArray "json list"
  | JObject "(string \<times> json) list"

text \<open>
  The library functions the listener calls are parameters of the model: decoding bytes
  as UTF-8, parsing JSON text, \<^verbatim>\<open>int(s)\<close> on a str, and \<^verbatim>\<open>str(v)\<close> on a value that
  is not a str. \<open>Inl e\<close> is the exception the call raises.
\<close>

record pylib =
  bytes_decode :: "string \<Rightarrow> exn + string"
  json_loads :: "string \<Rightarrow> exn + json"
  int_of_str :: "string \<Rightarrow> exn + int"
  str_of_value :: "json \<Rightarrow> string"

fun py_str :: "pylib \<Rightarrow> json \<Rightarrow> string" where
  "py_str L (JString s) = s"
| "py_str L v = str_of_value L v"

fun py_int :: "pylib \<Rightarrow> json \<Rightarrow> exn + int" where
  "py_int L JNull = Inl TypeError"
| "py_int L (JBool b) = Inr (if b then 1 else 0)"
| "py_int L (JInt n) = Inr n"
| "py_int L (JFloat x) = int_of_float x"
| "py_int L (JString s) = int_of_str L s"
| "py_int L (JArray xs) = Inl TypeError"
| "py_int L (JObject d) = Inl TypeError"

definition dict_get :: "(string \<times> json) list \<Rightarrow> string \<Rightarrow> exn + json" where
  \<comment> \<open>\<^verbatim>\<open>payload[key]\<close>\<close>
  "dict_get d key = (case map_of d key of None \<Rightarrow> Inl KeyError | Some v \<Rightarrow> Inr v)"

definition REQUIRED_FIELDS :: "string list" where
  "REQUIRED_FIELDS = [''zone'', ''kelvin'', ''brightness'', ''transition'']"

text \<open>The warnings with which a packet is discarded.\<close>

datatype warning =
    NotUtf8
  | MalformedJson
  | NotObject
  | MissingFields "string list"
  | UnknownZone string
  | InvalidFieldValues exn

datatype ingest = Discard warning | Command UdpCommand

definition make_UdpCommand ::
  "pylib \<Rightarrow> string \<Rightarrow> (string \<times> json) list \<Rightarrow> exn + UdpCommand" where
  \<comment> \<open>the constructor call of lines 182-187; the arguments are evaluated in order\<close>
  "make_UdpCommand L z d =
     (case dict_get d ''kelvin'' of Inl e \<Rightarrow> Inl e | Inr kv \<Rightarrow>
      case py_int L kv of Inl e \<Rightarrow> Inl e | Inr k \<Rightarrow>
      case dict_get d ''brightness'' of Inl e \<Rightarrow> Inl e | Inr bv \<Rightarrow>
      case py_int L bv of Inl e \<Rightarrow> Inl e | Inr b \<Rightarrow>
      case dict_get d ''transition'' of Inl e \<Rightarrow> Inl e | Inr tv \<Rightarrow>
      case py_int L tv of Inl e \<Rightarrow> Inl e | Inr t \<Rightarrow>
      Inr \<lparr>zone = z, kelvin = k, brightness = b, transition = t\<rparr>)"

definition datagram_received_command :: "pylib \<Rightarrow> string set \<Rightarrow> string \<Rightarrow> exn + ingest" where
  \<comment> \<open>lines 150-190 of \<^verbatim>\<open>datagram_received\<close>: the command of a packet, or its discard\<close>
  "datagram_received_command L known_zones data =
     (case bytes_decode L data of
        Inl e \<Rightarrow> if e = UnicodeDecodeError then Inr (Discard NotUtf8) else Inl e
      | Inr text \<Rightarrow>
     (case json_loads L text of
        Inl e \<Rightarrow> if e = JSONDecodeError then Inr (Discard MalformedJson) else Inl e
      | Inr payload \<Rightarrow>
     (case payload of
        JObject d \<Rightarrow>
          (let missing = filter (\<lambda>key. map_of d key = None) REQUIRED_FIELDS
           in if missing \<noteq> [] then Inr (Discard (MissingFields missing))
              else
               (case dict_get d ''zone'' of Inl e \<Rightarrow> Inl e | Inr zv \<Rightarrow>
                 (let z = py_str L zv
                  in if z \<notin> known_zones then Inr (Discard (UnknownZone z))
                     else
                      (case make_UdpCommand L z d of
                         Inl e \<Rightarrow>
                           if e = TypeError \<or> e = ValueError
                           then Inr (Discard (InvalidFieldValues e)) else Inl e
                       | Inr cmd \<Rightarrow> Inr (Command cmd)))))
      | _ \<Rightarrow> Inr (Discard NotObject))))"

definition datagram_received_enqueue ::
  "UdpCommand Queue \<Rightarrow> UdpCommand \<Rightarrow> exn + UdpCommand Queue" where
  \<comment> \<open>lines 192-202 of \<^verbatim>\<open>datagram_received\<close>: on \<^verbatim>\<open>QueueFull\<close> drop the oldest, put again\<close>
  "datagram_received_enqueue q cmd =
     (case put_nowait q cmd of
        Inr q' \<Rightarrow> Inr q'
      | Inl e \<Rightarrow>
          if e = QueueFull
          then (let q1 = (case get_nowait q of
                            Inr (old, q') \<Rightarrow> Inr q'
                          | Inl e' \<Rightarrow> if e' = QueueEmpty then Inr q else Inl e')
                in case q1 of Inl e' \<Rightarrow> Inl e' | Inr q' \<Rightarrow> put_nowait q' cmd)
          else Inl e)"

definition datagram_received ::
  "pylib \<Rightarrow> string set \<Rightarrow> UdpCommand Queue \<Rightarrow> string \<Rightarrow> exn + UdpCommand Queue" where
  \<comment> \<open>\<open>Inl e\<close>: the exception raised to the caller; \<open>Inr q\<close>: the queue on return\<close>
  "datagram_received L known_zones q data =
     (case datagram_received_command L known_zones data of
        Inl e \<Rightarrow> Inl e
      | Inr (Discard w) \<Rightarrow> Inr q
      | Inr (Command cmd) \<Rightarrow> datagram_received_enqueue q cmd)"

section \<open>Matter command dispatch\<close>

text \<open>
  The downstream client is outside the repository. What the bridge does to it is a list
  of effects, the device commands issued in order; what it answers is an oracle: given
  the effects so far and the next command, the exception \<^verbatim>\<open>send_device_command\<close>
  raises, if any. A dry run prints instead of sending. The import of the CHIP clusters
  at the head of \<^verbatim>\<open>_send_to_bulb\<close> is taken to succeed.
\<close>

datatype command =
    MoveToColorTemperature int int int int
      \<comment> \<open>colorTemperatureMireds, transitionTime, optionsMask, optionsOverride\<close>
  | MoveToLevelWithOnOff int int int int
      \<comment> \<open>level, transitionTime, optionsMask, optionsOverride\<close>

datatype effect =
    DeviceCommand int int command
      \<comment> \<open>node\_id, endpoint\_id, command\<close>
  | DryRunPrint string int int int int int "int list"
      \<comment> \<open>zone, kelvin, mireds, raw brightness, brightness, transition in ms, nodes\<close>

type_synonym client = "effect list \<Rightarrow> effect \<Rightarrow> exn option"

definition try_send_device_command :: "client \<Rightarrow> effect list \<Rightarrow> effect \<Rightarrow> exn + effect list" where
  \<comment> \<open>one \<^verbatim>\<open>try: await client.send_device_command(...) except Exception: log\<close> block\<close>
  "try_send_device_command client hist c =
     (case client hist c of
        None \<Rightarrow> Inr (hist @ [c])
      | Some e \<Rightarrow> if is_Exception e then Inr (hist @ [c]) else Inl e)"

definition send_to_bulb ::
  "client \<Rightarrow> effect list \<Rightarrow> int \<Rightarrow> int \<Rightarrow> int \<Rightarrow> int \<Rightarrow> int \<Rightarrow> exn + effect list" where
  "send_to_bulb client hist node_id endpoint mireds level ttime =
     (case try_send_device_command client hist
             (DeviceCommand node_id endpoint (MoveToColorTemperature mireds ttime 1 1)) of
        Inl e \<Rightarrow> Inl e
      | Inr hist1 \<Rightarrow>
          try_send_device_command client hist1
            (DeviceCommand node_id endpoint (MoveToLevelWithOnOff level ttime 0 0)))"

fun send_to_each_bulb ::
  "client \<Rightarrow> int \<Rightarrow> int \<Rightarrow> int \<Rightarrow> int \<Rightarrow> int list \<Rightarrow> effect list \<Rightarrow> exn + effect list" where
  \<comment> \<open>the loop \<^verbatim>\<open>for node_id in zone_cfg.node_ids\<close> of \<^verbatim>\<open>send_zone_command\<close>\<close>
  "send_to_each_bulb client endpoint mireds level ttime [] hist = Inr hist"
| "send_to_each_bulb client endpoint mireds level ttime (node_id # rest) hist =
     (case send_to_bulb client hist node_id endpoint mireds level ttime of
        Inl e \<Rightarrow> Inl e
      | Inr hist1 \<Rightarrow> send_to_each_bulb client endpoint mireds level ttime rest hist1)"

definition send_zone_command ::
  "client \<Rightarrow> effect list \<Rightarrow> ZoneConfig \<Rightarrow> ZoneState \<Rightarrow> UdpCommand \<Rightarrow> BridgeConfig \<Rightarrow> bool
   \<Rightarrow> exn + (ZoneState \<times> effect list)" where
  "send_zone_command client hist zone_cfg zone_state cmd config dry_run =
     (case clamp_brightness (brightness cmd) (brightness_multiplier zone_cfg) of
        Inl e \<Rightarrow> Inl e
      | Inr level \<Rightarrow>
     (case kelvin_to_mireds (kelvin cmd) (min_kelvin zone_cfg) (max_kelvin zone_cfg) of
        Inl e \<Rightarrow> Inl e
      | Inr mireds \<Rightarrow>
     (let transition_ms = transition cmd * 100
      in if last_mireds zone_state \<noteq> - 1
            \<and> \<bar>mireds - last_mireds zone_state\<bar> < dedup_mireds_threshold config
            \<and> \<bar>level - last_brightness zone_state\<bar> < dedup_brightness_threshold config
         then Inr (zone_state, hist)
         else if dry_run
         then Inr (zone_state\<lparr>last_mireds := mireds, last_brightness := level\<rparr>,
                   hist @ [DryRunPrint (zone cmd) (kelvin cmd) mireds (brightness cmd) level
                             transition_ms (node_ids zone_cfg)])
         else
          (case send_to_each_bulb client (endpoint_id zone_cfg) mireds level (transition cmd)
                  (node_ids zone_cfg) hist of
             Inl e \<Rightarrow> Inl e
           | Inr hist1 \<Rightarrow>
               Inr (zone_state\<lparr>last_mireds := mireds, last_brightness := level\<rparr>, hist1)))))"

section \<open>Command dispatch loop\<close>

definition command_loop_body ::
  "client \<Rightarrow> BridgeConfig \<Rightarrow> bool \<Rightarrow> (string \<rightharpoonup> ZoneState) \<Rightarrow> effect list \<Rightarrow> UdpCommand
   \<Rightarrow> exn + ((string \<rightharpoonup> ZoneState) \<times> effect list)" where
  \<comment> \<open>one iteration of \<^verbatim>\<open>_command_loop\<close>, for the command that \<^verbatim>\<open>queue.get()\<close> returned;
      the zone's state object is updated in place, so the store holds the new state\<close>
  "command_loop_body client config dry_run zone_states hist cmd =
     (case zones config (zone cmd) of
        None \<Rightarrow> Inr (zone_states, hist)
      | Some zone_cfg \<Rightarrow>
          (case zone_states (zone cmd) of
             None \<Rightarrow> Inl KeyError
           | Some zone_state \<Rightarrow>
               (case send_zone_command client hist zone_cfg zone_state cmd config dry_run of
                  Inl e \<Rightarrow> Inl e
                | Inr (zone_state', hist') \<Rightarrow>
                    Inr (zone_states(zone cmd \<mapsto> zone_state'), hist'))))"

function drain_queue_loop :: "'a Queue \<Rightarrow> int \<Rightarrow> int \<times> 'a Queue" where
  \<comment> \<open>the \<^verbatim>\<open>while not queue.empty()\<close> loop of \<^verbatim>\<open>_drain_queue\<close>; \<^verbatim>\<open>QueueEmpty\<close> breaks\<close>
  "drain_queue_loop q count =
     (if \<not> queue_empty q
      then (case get_nowait q of
              Inr (x, q') \<Rightarrow> drain_queue_loop q' (count + 1)
            | Inl e \<Rightarrow> (count, q))
      else (count, q))"
  by pat_completeness auto
termination
  by (relation "measure (\<lambda>(q, count). length (items q))")
     (auto simp: get_nowait_def split: list.splits)

definition drain_queue :: "'a Queue \<Rightarrow> int \<times> 'a Queue" where
  \<comment> \<open>\<^verbatim>\<open>_drain_queue\<close>: the count drained and the queue afterwards\<close>
  "drain_queue q = drain_queue_loop q 0"

section \<open>Matter reconnect loop\<close>

text \<open>
  One pass of the \<^verbatim>\<open>while True\<close> loop of \<^verbatim>\<open>_matter_reconnect_loop\<close> either connects,
  and then resets the delay, drains the queue and runs the command loop, or leaves its
  \<^verbatim>\<open>try\<close> block with an exception, which the \<^verbatim>\<open>except\<close> clauses handle: sleep for the
  delay and go on with a longer one, or raise.
\<close>

datatype loop_action =
    Retry pyfloat pyfloat  \<comment> \<open>the delay slept, the delay of the next pass\<close>
  | Raise exn

definition reconnect_connected ::
  "BridgeConfig \<Rightarrow> UdpCommand Queue \<Rightarrow> pyfloat \<times> UdpCommand Queue" where
  \<comment> \<open>lines 379-381: the delay and the queue when the command loop starts\<close>
  "reconnect_connected config q =
     (Finite (reconnect_initial_delay config), snd (drain_queue q))"

definition reconnect_except :: "BridgeConfig \<Rightarrow> pyfloat \<Rightarrow> exn \<Rightarrow> loop_action" where
  \<comment> \<open>lines 393-414: the \<^verbatim>\<open>except\<close> clauses; an exception that none names passes\<close>
  "reconnect_except config delay e =
     (if e = CannotConnect \<or> e = ConnectionFailed
      then Retry delay
             (py_min (float_mul delay (Finite (reconnect_multiplier config)))
                (Finite (reconnect_max_delay config)))
      else if e = ConnectionResetError
      then Retry delay
             (py_min (float_mul delay (Finite (reconnect_multiplier config)))
                (Finite (reconnect_max_delay config)))
      else if e = InvalidServerVersion
      then Raise (SystemExit 1)
      else if e = CancelledError
      then Raise CancelledError
      else Raise e)"

section \<open>Entry points\<close>



text \<open>
  The two commands a bulb is sent, and the clients none of whose calls is cancelled:
  whatever a call raises is an \<^verbatim>\<open>Exception\<close>.
\<close>

definition bulb_commands :: "int \<Rightarrow> int \<Rightarrow> int \<Rightarrow> int \<Rightarrow> int \<Rightarrow> effect list" where
  "bulb_commands endpoint mireds level ttime node_id =
     [DeviceCommand node_id endpoint (MoveToColorTemperature mireds ttime 1 1),
      DeviceCommand node_id endpoint (MoveToLevelWithOnOff level ttime 0 0)]"

definition never_cancelled :: "client \<Rightarrow> bool" where
  "never_cancelled client = (\<forall>hist c e. client hist c = Some e \<longrightarrow> is_Exception e)"

section \<open>The running bridge\<close>

text \<open>
  The tasks of \<^verbatim>\<open>run_bridge\<close> share one event loop, so the bridge moves in steps, each
  running one piece of code to its next \<^verbatim>\<open>await\<close>: a packet arrives and
  \<^verbatim>\<open>datagram_received\<close> runs; the connection attempt succeeds; an exception leaves the
  \<^verbatim>\<open>try\<close> block of the reconnect loop; the command loop takes the oldest command
  from the queue and dispatches it. A dispatch awaits between its sends; the packets
  that arrive meanwhile only change the queue, which the dispatch no longer reads, so a
  step takes the dispatch as a whole.
\<close>

datatype phase = Connecting | Connected | DryRun | Stopped exn

fun running :: "phase \<Rightarrow> bool" where
  "running (Stopped e) = False"
| "running p = True"

record bridge =
  queue :: "UdpCommand Queue"
  zone_states :: "string \<rightharpoonup> ZoneState"
  delay :: pyfloat
  phase :: phase
  issued :: "effect list"

definition run_bridge :: "BridgeConfig \<Rightarrow> bool \<Rightarrow> bridge" where
  \<comment> \<open>the state in which \<^verbatim>\<open>run_bridge\<close> starts its loop\<close>
  "run_bridge config dry_run =
     \<lparr>queue = Queue_init 100,
      zone_states = (\<lambda>n. map_option (\<lambda>z. ZoneState_init) (zones config n)),
      delay = Finite (reconnect_initial_delay config),
      phase = (if dry_run then DryRun else Connecting),
      issued = []\<rparr>"

datatype event =
    Recv string            \<comment> \<open>a packet with these bytes arrives\<close>
  | ConnectOk              \<comment> \<open>the Matter client connects\<close>
  | Raised exn             \<comment> \<open>an exception leaves the running loop\<close>
  | Dispatch UdpCommand    \<comment> \<open>the command loop gets this command from the queue\<close>

definition after_exception :: "BridgeConfig \<Rightarrow> exn \<Rightarrow> bridge \<Rightarrow> bridge" where
  \<comment> \<open>a dry run has no reconnect loop: the exception ends \<^verbatim>\<open>run_bridge\<close>\<close>
  "after_exception config e s =
     (if phase s = DryRun then s\<lparr>phase := Stopped e\<rparr>
      else (case reconnect_except config (delay s) e of
              Retry slept d \<Rightarrow> s\<lparr>delay := d, phase := Connecting\<rparr>
            | Raise e' \<Rightarrow> s\<lparr>phase := Stopped e'\<rparr>))"

definition step ::
  "pylib \<Rightarrow> client \<Rightarrow> BridgeConfig \<Rightarrow> event \<Rightarrow> bridge \<Rightarrow> bridge option" where
  \<comment> \<open>\<open>None\<close>: the event cannot happen in this state\<close>
  "step L client config ev s =
     (if \<not> running (phase s) then None
      else
       (case ev of
          Recv data \<Rightarrow>
            (case datagram_received L (dom (zones config)) (queue s) data of
               Inl e \<Rightarrow> Some s
             | Inr q' \<Rightarrow> Some (s\<lparr>queue := q'\<rparr>))
        | ConnectOk \<Rightarrow>
            if phase s = Connecting
            then (case reconnect_connected config (queue s) of
                    (d, q') \<Rightarrow> Some (s\<lparr>queue := q', delay := d, phase := Connected\<rparr>))
            else None
        | Raised e \<Rightarrow> Some (after_exception config e s)
        | Dispatch cmd \<Rightarrow>
            if phase s = Connected \<or> phase s = DryRun
            then (case get_nowait (queue s) of
                    Inl e \<Rightarrow> None
                  | Inr (c, q') \<Rightarrow>
                      if c \<noteq> cmd then None
                      else
                       (case command_loop_body client config (phase s = DryRun)
                               (zone_states s) (issued s) cmd of
                          Inl e \<Rightarrow> Some (after_exception config e (s\<lparr>queue := q'\<rparr>))
                        | Inr (zs, hist) \<Rightarrow>
                            Some (s\<lparr>queue := q', zone_states := zs, issued := hist\<rparr>)))
            else None))"

fun run :: "pylib \<Rightarrow> client \<Rightarrow> BridgeConfig \<Rightarrow> event list \<Rightarrow> bridge \<Rightarrow> bridge option" where
  "run L client config [] s = Some s"
| "run L client config (ev # evs) s =
     (case step L client config ev s of
        None \<Rightarrow> None
      | Some s' \<Rightarrow> run L client config evs s')"

section \<open>The configuration and packets of the scenarios\<close>

definition ceiling_zone :: ZoneConfig where
  "ceiling_zone =
     \<lparr>name = ''ceiling'', node_ids = [1, 2], endpoint_id = 1, brightness_multiplier = 1,
      min_kelvin = 2700, max_kelvin = 6500\<rparr>"

definition default_config :: BridgeConfig where
  \<comment> \<open>the defaults of \<^verbatim>\<open>load_config\<close>, with one zone\<close>
  "default_config =
     \<lparr>matter_server_url = ''ws://localhost:5580/ws'', udp_listen_ip = ''127.0.0.1'',
      udp_listen_port = 10001,
      reconnect_initial_delay = 2, reconnect_max_delay = 60, reconnect_multiplier = 2,
      dedup_mireds_threshold = 10, dedup_brightness_threshold = 5,
      zones = [''ceiling'' \<mapsto> ceiling_zone]\<rparr>"

definition packet_lib :: "json \<Rightarrow> pylib" where
  \<comment> \<open>library answers for a packet whose bytes are the JSON text of this value\<close>
  "packet_lib v =
     \<lparr>bytes_decode = (\<lambda>data. Inr data), json_loads = (\<lambda>text. Inr v),
      int_of_str = (\<lambda>s. Inl ValueError), str_of_value = (\<lambda>v. [])\<rparr>"

definition command_packet :: "string \<Rightarrow> json \<Rightarrow> json \<Rightarrow> json \<Rightarrow> json" where
  "command_packet z k b t =
     JObject [(''zone'', JString z), (''kelvin'', k), (''brightness'', b), (''transition'', t)]"

definition failing_client :: client where
  \<comment> \<open>every call to node 1 fails\<close>
  "failing_client hist c =
     (case c of
        DeviceCommand node_id endpoint k \<Rightarrow> if node_id = 1 then Some OtherException else None
      | _ \<Rightarrow> None)"

section \<open>Invariants and scenario states\<close>

text \<open>The queue as \<^verbatim>\<open>run_bridge\<close> creates it: capacity 100, at most 100 items.\<close>

definition queue_ok :: "'a Queue \<Rightarrow> bool" where
  "queue_ok q = (maxsize q = 100 \<and> qsize q \<le> 100)"

text \<open>
  The zone invariant of the configuration (the minimum colour temperature is positive),
  and the states a zone's record goes through: never sent, or sent with values that
  are not negative.
\<close>

definition zones_ok :: "BridgeConfig \<Rightarrow> bool" where
  "zones_ok config = (\<forall>z zc. zones config z = Some zc \<longrightarrow> 0 < min_kelvin zc)"

definition state_ok :: "ZoneState \<Rightarrow> bool" where
  "state_ok st = ((last_mireds st = - 1 \<and> last_brightness st = - 1)
                  \<or> (0 \<le> last_mireds st \<and> 0 \<le> last_brightness st))"

definition store_ok :: "(string \<rightharpoonup> ZoneState) \<Rightarrow> bool" where
  "store_ok zs = (\<forall>z st. zs z = Some st \<longrightarrow> state_ok st)"

text \<open>The packets, commands and states of the scenarios.\<close>

definition noon_packet :: json where
  "noon_packet = command_packet ''ceiling'' (JInt 6500) (JInt 254) (JInt 8)"

definition noon_command :: UdpCommand where
  "noon_command = \<lparr>zone = ''ceiling'', kelvin = 6500, brightness = 254, transition = 8\<rparr>"

definition night_command :: UdpCommand where
  "night_command = \<lparr>zone = ''ceiling'', kelvin = 2700, brightness = 20, transition = 8\<rparr>"

definition noon_state :: bridge where
  "noon_state =
     (run_bridge default_config True)
       \<lparr>queue := \<lparr>maxsize = 100, items = []\<rparr>,
        zone_states := (zone_states (run_bridge default_config True))
           (''ceiling'' \<mapsto> \<lparr>last_mireds = 153, last_brightness = 254\<rparr>),
        issued := [DryRunPrint ''ceiling'' 6500 153 254 254 800 [1, 2]]\<rparr>"

definition full_state :: bridge where
  "full_state =
     (run_bridge default_config True)
       \<lparr>queue := \<lparr>maxsize = 100, items = replicate 100 noon_command\<rparr>\<rparr>"

text \<open>The commands a packet of a run is accepted as.\<close>

fun accepts :: "pylib \<Rightarrow> string set \<Rightarrow> event \<Rightarrow> UdpCommand \<Rightarrow> bool" where
  "accepts L known_zones (Recv data) c =
     (datagram_received_command L known_zones data = Inr (Command c))"
| "accepts L known_zones ev c = False"

text \<open>
  The reconnect scenario: a command is queued while the bridge is connecting; the
  connection succeeds; a second packet arrives and is dispatched.
\<close>

definition night_packet :: json where
  "night_packet = command_packet ''ceiling'' (JInt 2700) (JInt 20) (JInt 8)"

definition scenario_lib :: pylib where
  "scenario_lib =
     \<lparr>bytes_decode = (\<lambda>data. Inr data),
      json_loads = (\<lambda>text. if text = ''night'' then Inr night_packet
                            else if text = ''noon'' then Inr noon_packet
                            else Inl JSONDecodeError),
      int_of_str = (\<lambda>s. Inl ValueError), str_of_value = (\<lambda>v. [])\<rparr>"

definition stale_state :: bridge where
  "stale_state =
     (run_bridge default_config False)\<lparr>queue := \<lparr>maxsize = 100, items = [noon_command]\<rparr>\<rparr>"

definition connected_state :: bridge where
  "connected_state =
     (run_bridge default_config False)
       \<lparr>queue := \<lparr>maxsize = 100, items = []\<rparr>, delay := Finite 2, phase := Connected\<rparr>"

definition night_state :: bridge where
  "night_state =
     connected_state
       \<lparr>queue := \<lparr>maxsize = 100, items = []\<rparr>,
        zone_states := (zone_states connected_state)
           (''ceiling'' \<mapsto> \<lparr>last_mireds = 370, last_brightness = 20\<rparr>),
        issued := bulb_commands 1 370 20 8 1 @ bulb_commands 1 370 20 8 2\<rparr>"

text \<open>
  The connection errors after which the loop retries; what holds of the delay while the
  bridge runs against a Matter server; the states of the backoff scenario.
\<close>

definition recoverable :: "exn \<Rightarrow> bool" where
  "recoverable e = (e = CannotConnect \<or> e = ConnectionFailed \<or> e = ConnectionResetError)"

definition live_ok :: "BridgeConfig \<Rightarrow> bridge \<Rightarrow> bool" where
  "live_ok config s =
     (phase s \<noteq> DryRun
      \<and> (delay s = Finite (reconnect_initial_delay config)
           \<or> float_le (delay s) (Finite (reconnect_max_delay config)))
      \<and> (delay s = NegInf \<longrightarrow> reconnect_multiplier config \<noteq> 0))"

definition backoff_state :: "rat \<Rightarrow> phase \<Rightarrow> bridge" where
  "backoff_state d p = (run_bridge default_config False)\<lparr>delay := Finite d, phase := p\<rparr>"




definition negative_zone :: ZoneConfig where
  "negative_zone = ceiling_zone\<lparr>min_kelvin := - 1000000, max_kelvin := - 500000\<rparr>"

definition negative_config :: BridgeConfig where
  "negative_config = default_config\<lparr>zones := [''ceiling'' \<mapsto> negative_zone]\<rparr>"

definition negative_packet :: json where
  "negative_packet = command_packet ''ceiling'' (JInt (- 700000)) (JInt 254) (JInt 8)"

definition negative_command :: UdpCommand where
  "negative_command =
     \<lparr>zone = ''ceiling'', kelvin = - 700000, brightness = 254, transition = 8\<rparr>"

definition negative_state :: bridge where
  "negative_state =
     (run_bridge negative_config True)
       \<lparr>queue := \<lparr>maxsize = 100, items = []\<rparr>,
        zone_states := (zone_states (run_bridge negative_config True))
           (''ceiling'' \<mapsto> \<lparr>last_mireds = - 1, last_brightness = 254\<rparr>),
        issued := [DryRunPrint ''ceiling'' (- 700000) (- 1) 254 254 800 [1, 2]]\<rparr>"

text \<open>The connected bridge with one command waiting in the queue.\<close>

definition queued_state :: bridge where
  "queued_state = connected_state\<lparr>queue := \<lparr>maxsize = 100, items = [night_command]\<rparr>\<rparr>"

section \<open>Properties of the float arithmetic\<close>

lemma floor_log2_unique:
  "0 < x \<Longrightarrow> 2 powi e \<le> x \<Longrightarrow> x < 2 powi (e + 1) \<Longrightarrow> floor_log2 x = e"
proof (induction x arbitrary: e rule: floor_log2.induct)
  case (1 x)
  have p1: "\<And>k::int. (2::rat) powi (k + 1) = 2 * 2 powi k"
    by (simp add: power_int_add)
  consider "2 \<le> x" | "x < 1" | "1 \<le> x" "x < 2"
    by linarith
  then show ?case
  proof cases
    case 1
    have e1: "(2::rat) powi e = 2 * 2 powi (e - 1)"
      using p1 [of "e - 1"] by simp
    have e2: "(2::rat) powi (e + 1) = 2 * 2 powi e"
      by (rule p1)
    have lo: "2 powi (e - 1) \<le> x / 2"
      using "1.prems"(2) e1 by linarith
    have hi: "x / 2 < 2 powi (e - 1 + 1)"
      using "1.prems"(3) e2 by simp
    have "floor_log2 (x / 2) = e - 1"
      using "1.IH"(1) [of "e - 1"] "1.prems"(1) 1 lo hi by simp
    then show ?thesis
      using 1 "1.prems"(1) by (subst floor_log2.simps) simp
  next
    case 2
    have e2: "(2::rat) powi (e + 1) = 2 * 2 powi e"
      by (rule p1)
    have e3: "(2::rat) powi (e + 1 + 1) = 2 * 2 powi (e + 1)"
      by (rule p1)
    have lo: "2 powi (e + 1) \<le> 2 * x"
      using "1.prems"(2) e2 by linarith
    have hi: "2 * x < 2 powi (e + 1 + 1)"
      using "1.prems"(3) e3 by linarith
    have "floor_log2 (2 * x) = e + 1"
      using "1.IH"(2) [of "e + 1"] "1.prems"(1) 2 lo hi by simp
    then show ?thesis
      using 2 "1.prems"(1) by (subst floor_log2.simps) simp
  next
    case 3
    have "e < 1"
    proof (rule ccontr)
      assume "\<not> e < 1"
      then have "(2::rat) powi 1 \<le> 2 powi e"
        by (intro power_int_increasing) simp_all
      then show False
        using "1.prems"(2) 3 by simp
    qed
    have "0 < e + 1"
    proof (rule ccontr)
      assume "\<not> 0 < e + 1"
      then have "(2::rat) powi (e + 1) \<le> 2 powi 0"
        by (intro power_int_increasing) simp_all
      then show False
        using "1.prems"(3) 3 by simp
    qed
    with \<open>e < 1\<close> have "e = 0" by simp
    then show ?thesis
      using 3 "1.prems"(1) by (subst floor_log2.simps) simp
  qed
qed


lemma round_binary64_exponent:
  assumes "x \<noteq> 0" and "2 powi e \<le> \<bar>x\<bar>" and "\<bar>x\<bar> < 2 powi (e + 1)"
  shows "round_binary64 x =
     (let ulp = 2 powi (max e (- 1022) - 52);
          r = of_int (round_half_even (\<bar>x\<bar> / ulp)) * ulp
      in if 2 ^ 1024 \<le> r then (if 0 < x then PosInf else NegInf)
         else Finite (if 0 < x then r else - r))"
proof -
  have "floor_log2 \<bar>x\<bar> = e"
    using assms by (intro floor_log2_unique) simp_all
  then show ?thesis
    using assms(1) by (simp only: round_binary64_def Let_def if_False)
qed

lemma floor_rat_numeral: "\<lfloor>(numeral a / numeral b :: rat)\<rfloor> = numeral a div numeral b"
  by (metis floor_divide_of_int_eq of_int_numeral)

lemma round_binary64_not_NaN: "round_binary64 x \<noteq> NaN"
  by (simp add: round_binary64_def Let_def)

lemma round_binary64_0: "round_binary64 0 = Finite 0"
  by (simp add: round_binary64_def)

lemma round_binary64_4: "round_binary64 4 = Finite 4"
  by (subst round_binary64_exponent [where e = 2])
     (simp_all add: round_half_even_def Let_def floor_rat_numeral)

lemma round_binary64_8: "round_binary64 8 = Finite 8"
  by (subst round_binary64_exponent [where e = 3])
     (simp_all add: round_half_even_def Let_def floor_rat_numeral)

lemma round_binary64_20: "round_binary64 20 = Finite 20"
  by (subst round_binary64_exponent [where e = 4])
     (simp_all add: round_half_even_def Let_def floor_rat_numeral)


lemma round_binary64_254: "round_binary64 254 = Finite 254"
  by (subst round_binary64_exponent [where e = 7])
     (simp_all add: round_half_even_def Let_def floor_rat_numeral)

lemma round_binary64_10: "round_binary64 10 = Finite 10"
  by (subst round_binary64_exponent [where e = 3])
     (simp_all add: round_half_even_def Let_def floor_rat_numeral)

lemma round_binary64_90: "round_binary64 90 = Finite 90"
  by (subst round_binary64_exponent [where e = 6])
     (simp_all add: round_half_even_def Let_def floor_rat_numeral)

lemma round_binary64_huge: "round_binary64 (10 ^ 400) = PosInf"
  by (subst round_binary64_exponent [where e = 1328])
     (simp_all add: round_half_even_def Let_def floor_rat_numeral)

text \<open>
  The float nearest to \<open>0.7\<close> is \<open>3152519739159347 / 2^52\<close>; ten times it lies half
  way between two floats and rounds to \<open>7\<close>, ninety times it rounds below \<open>63\<close>.
\<close>

lemma round_binary64_7_tenths:
  "round_binary64 (7 / 10) = Finite (3152519739159347 / 4503599627370496)"
  by (subst round_binary64_exponent [where e = "- 1"])
     (simp_all add: round_half_even_def Let_def floor_rat_numeral)

lemma round_binary64_10_times:
  "round_binary64 (10 * (3152519739159347 / 4503599627370496)) = Finite 7"
  by (subst round_binary64_exponent [where e = 2])
     (simp_all add: round_half_even_def Let_def floor_rat_numeral)

lemma round_binary64_90_times:
  "round_binary64 (90 * (3152519739159347 / 4503599627370496)) = Finite (63 - 1 / 2 ^ 47)"
  by (subst round_binary64_exponent [where e = 5])
     (simp_all add: round_half_even_def Let_def floor_rat_numeral)

section \<open>Properties of the conversion utilities\<close>

lemma int_of_float_quotient:
  assumes "0 < k"
  shows "int_of_float (Finite (1000000 / of_int k)) = Inr (1000000 div k)"
proof -
  have "(0::rat) \<le> 1000000 / of_int k"
    using assms by simp
  moreover have "\<lfloor>(1000000::rat) / of_int k\<rfloor> = 1000000 div k"
    using floor_divide_of_int_eq [of 1000000 k, where ?'a = rat] by simp
  ultimately show ?thesis
    by simp
qed

text \<open>
  C1 (as the code has it): with \<open>0 < minKelvin \<le> maxKelvin\<close> the input is clamped into
  the zone bounds and the result is \<open>1_000_000 / clamped\<close> truncated to an integer, not
  rounded.
\<close>

theorem kelvin_to_mireds_truncates:
  assumes "0 < lo" and "lo \<le> hi"
  shows "kelvin_to_mireds k lo hi = Inr (1000000 div max lo (min hi k))
         \<and> lo \<le> max lo (min hi k) \<and> max lo (min hi k) \<le> hi"
proof -
  have pos: "0 < max lo (min hi k)"
    using assms by simp
  have "kelvin_to_mireds k lo hi = int_of_float (Finite (1000000 / of_int (max lo (min hi k))))"
    using pos by (simp add: kelvin_to_mireds_def Let_def)
  then show ?thesis
    using int_of_float_quotient [OF pos] assms by simp
qed

theorem kelvin_to_mireds_truncates_witness:
  "(0::int) < 2700 \<and> (2700::int) \<le> 6500 \<and> kelvin_to_mireds 6500 2700 6500 = Inr 153"
  using kelvin_to_mireds_truncates [of 2700 6500 6500] by simp

text \<open>
  C1 (as the specification has it) fails at the specification's own scenario: for
  \<open>minKelvin = 2700\<close>, \<open>maxKelvin = 6500\<close> and \<open>kelvin = 6500\<close> rounding gives 154, and
  the code returns 153.
\<close>

theorem kelvin_to_mireds_scenario_153:
  "colorTemperatureToProtocolUnits_spec 6500 2700 6500 = 154
   \<and> kelvin_to_mireds 6500 2700 6500 = Inr 153"
  by code_simp

lemma clamp_brightness_range:
  "clamp_brightness raw m = Inr b \<Longrightarrow> 0 \<le> b \<and> b \<le> 254"
  by (auto simp: clamp_brightness_def split: sum.splits)

lemma clamp_brightness_finite:
  assumes "float_of_int raw = Inr x" and "float_mul x (Finite m) = Finite p"
  shows "clamp_brightness raw m = Inr (max 0 (min 254 (if 0 \<le> p then \<lfloor>p\<rfloor> else \<lceil>p\<rceil>)))"
  using assms by (simp add: clamp_brightness_def)

lemma clamp_brightness_20: "clamp_brightness 20 1 = Inr 20"
  by (simp add: clamp_brightness_def float_of_int_def round_binary64_20)


lemma clamp_brightness_254: "clamp_brightness 254 1 = Inr 254"
  by (simp add: clamp_brightness_def float_of_int_def round_binary64_254)

lemma clamp_brightness_10_times:
  "clamp_brightness 10 (3152519739159347 / 4503599627370496) = Inr 7"
proof -
  have a: "float_of_int 10 = Inr (Finite 10)"
    by (simp add: float_of_int_def round_binary64_10)
  have b: "float_mul (Finite 10) (Finite (3152519739159347 / 4503599627370496)) = Finite 7"
    by (simp only: float_mul.simps round_binary64_10_times)
  show ?thesis
    by (simp only: clamp_brightness_def a b sum.case int_of_float.simps) simp
qed

lemma clamp_brightness_90_times:
  "clamp_brightness 90 (3152519739159347 / 4503599627370496) = Inr 62"
proof -
  have a: "float_of_int 90 = Inr (Finite 90)"
    by (simp add: float_of_int_def round_binary64_90)
  have b: "float_mul (Finite 90) (Finite (3152519739159347 / 4503599627370496))
             = Finite (63 - 1 / 2 ^ 47)"
    by (simp only: float_mul.simps round_binary64_90_times)
  have c: "\<lfloor>(63::rat) - 1 / 2 ^ 47\<rfloor> = 62"
    by (intro floor_unique) simp_all
  have d: "(0::rat) \<le> 63 - 1 / 2 ^ 47"
    by simp
  show ?thesis
    by (simp only: clamp_brightness_def a b sum.case int_of_float.simps d c if_True) simp
qed


lemma kelvin_to_mireds_6500: "kelvin_to_mireds 6500 2700 6500 = Inr 153"
  by code_simp

text \<open>
  C9 fails on the code: \<^verbatim>\<open>clamp_brightness\<close> clamps whatever \<^verbatim>\<open>int(raw * multiplier)\<close>
  returns, but for \<open>raw = 10^400\<close> and \<open>multiplier = 1.0\<close> the product cannot be formed:
  the int does not fit a float, \<^verbatim>\<open>OverflowError\<close> is raised and nothing is returned.
  (When the product is a finite float the result is its truncation, clamped:
  \<open>clamp_brightness_finite\<close>, \<open>clamp_brightness_range\<close>.)
\<close>

theorem clamp_brightness_overflow: "clamp_brightness (10 ^ 400) 1 = Inl OverflowError"
  using round_binary64_huge by (simp add: clamp_brightness_def float_of_int_def)

section \<open>Properties of the UDP listener\<close>

text \<open>
  What the listener does with a packet, step by step: a packet that is not UTF-8, not
  JSON, not an object, lacks a required key or names an unknown zone is discarded and
  leaves the queue as it is, as does one whose fields make \<^verbatim>\<open>int\<close> raise
  \<^verbatim>\<open>TypeError\<close> or \<^verbatim>\<open>ValueError\<close>; a packet with integer fields and a known zone is
  enqueued, whatever other keys it has.
\<close>

lemma discard_keeps_queue:
  "datagram_received_command L known data = Inr (Discard w)
   \<Longrightarrow> datagram_received L known q data = Inr q"
  by (simp add: datagram_received_def)

lemma not_utf8_discarded:
  "bytes_decode L data = Inl UnicodeDecodeError
   \<Longrightarrow> datagram_received_command L known data = Inr (Discard NotUtf8)"
  by (simp add: datagram_received_command_def)

lemma malformed_json_discarded:
  "bytes_decode L data = Inr text \<Longrightarrow> json_loads L text = Inl JSONDecodeError
   \<Longrightarrow> datagram_received_command L known data = Inr (Discard MalformedJson)"
  by (simp add: datagram_received_command_def)

lemma not_object_discarded:
  "bytes_decode L data = Inr text \<Longrightarrow> json_loads L text = Inr v \<Longrightarrow> \<forall>d. v \<noteq> JObject d
   \<Longrightarrow> datagram_received_command L known data = Inr (Discard NotObject)"
  by (cases v) (simp_all add: datagram_received_command_def)

lemma missing_fields_discarded:
  assumes "bytes_decode L data = Inr text" and "json_loads L text = Inr (JObject d)"
    and "key \<in> set REQUIRED_FIELDS" and "map_of d key = None"
  shows "\<exists>missing. key \<in> set missing
           \<and> datagram_received_command L known data = Inr (Discard (MissingFields missing))"
proof -
  let ?missing = "filter (\<lambda>key. map_of d key = None) REQUIRED_FIELDS"
  have m: "key \<in> set ?missing"
    using assms(3,4) by simp
  then have ne: "?missing \<noteq> []"
    by (metis empty_iff list.set(1))
  have "datagram_received_command L known data = Inr (Discard (MissingFields ?missing))"
    using assms(1,2) ne by (simp add: datagram_received_command_def Let_def)
  then show ?thesis
    using m by blast
qed

lemma all_fields_present:
  assumes "map_of d ''zone'' = Some zv" and "map_of d ''kelvin'' = Some kv"
    and "map_of d ''brightness'' = Some bv" and "map_of d ''transition'' = Some tv"
  shows "filter (\<lambda>key. map_of d key = None) REQUIRED_FIELDS = []"
  using assms by (simp add: REQUIRED_FIELDS_def)

lemma unknown_zone_discarded:
  assumes "bytes_decode L data = Inr text" and "json_loads L text = Inr (JObject d)"
    and "map_of d ''zone'' = Some zv" and "map_of d ''kelvin'' = Some kv"
    and "map_of d ''brightness'' = Some bv" and "map_of d ''transition'' = Some tv"
    and "py_str L zv \<notin> known"
  shows "datagram_received_command L known data = Inr (Discard (UnknownZone (py_str L zv)))"
  using assms all_fields_present [OF assms(3-6)]
  by (simp add: datagram_received_command_def dict_get_def)

lemma field_values:
  assumes "map_of d ''kelvin'' = Some kv"
    and "map_of d ''brightness'' = Some bv" and "map_of d ''transition'' = Some tv"
  shows "make_UdpCommand L z d =
     (case py_int L kv of Inl e \<Rightarrow> Inl e | Inr k \<Rightarrow>
      case py_int L bv of Inl e \<Rightarrow> Inl e | Inr b \<Rightarrow>
      case py_int L tv of Inl e \<Rightarrow> Inl e | Inr t \<Rightarrow>
      Inr \<lparr>zone = z, kelvin = k, brightness = b, transition = t\<rparr>)"
  using assms by (simp add: make_UdpCommand_def dict_get_def split: sum.splits)

lemma invalid_values_discarded:
  assumes "bytes_decode L data = Inr text" and "json_loads L text = Inr (JObject d)"
    and "map_of d ''zone'' = Some zv" and "map_of d ''kelvin'' = Some kv"
    and "map_of d ''brightness'' = Some bv" and "map_of d ''transition'' = Some tv"
    and "py_str L zv \<in> known"
    and "make_UdpCommand L (py_str L zv) d = Inl e" and "e = TypeError \<or> e = ValueError"
  shows "datagram_received_command L known data = Inr (Discard (InvalidFieldValues e))"
  using assms all_fields_present [OF assms(3-6)]
  by (auto simp: datagram_received_command_def dict_get_def)

lemma well_formed_enqueued:
  assumes "bytes_decode L data = Inr text" and "json_loads L text = Inr (JObject d)"
    and "map_of d ''zone'' = Some zv" and "map_of d ''kelvin'' = Some (JInt k)"
    and "map_of d ''brightness'' = Some (JInt b)" and "map_of d ''transition'' = Some (JInt t)"
    and "py_str L zv \<in> known"
  shows "datagram_received L known q data =
           datagram_received_enqueue q
             \<lparr>zone = py_str L zv, kelvin = k, brightness = b, transition = t\<rparr>"
  using assms all_fields_present [OF assms(3-6)] field_values [OF assms(4-6), of L "py_str L zv"]
  by (simp add: datagram_received_def datagram_received_command_def dict_get_def)

text \<open>
  C5 fails on the code: the packet
  \<^verbatim>\<open>{"zone": "ceiling", "kelvin": 1e999, "brightness": 254, "transition": 8}\<close>
  is valid JSON naming a configured zone; \<^verbatim>\<open>json.loads\<close> reads \<^verbatim>\<open>1e999\<close> as the
  float infinity, \<^verbatim>\<open>int\<close> of it raises \<^verbatim>\<open>OverflowError\<close>, and the handler around
  the coercion catches \<^verbatim>\<open>TypeError\<close> and \<^verbatim>\<open>ValueError\<close> only: the exception is raised
  to the caller of \<^verbatim>\<open>datagram_received\<close>.
\<close>

theorem datagram_received_overflow:
  "datagram_received
     (packet_lib (command_packet ''ceiling'' (JFloat PosInf) (JInt 254) (JInt 8)))
     {''ceiling''} (Queue_init 100) data = Inl OverflowError"
  by (simp add: datagram_received_def datagram_received_command_def packet_lib_def
      command_packet_def REQUIRED_FIELDS_def dict_get_def make_UdpCommand_def)

section \<open>Properties of the zone dispatch\<close>

lemma try_send_never_cancelled:
  "never_cancelled client \<Longrightarrow> try_send_device_command client hist c = Inr (hist @ [c])"
  by (auto simp: never_cancelled_def try_send_device_command_def split: option.splits)

lemma send_to_bulb_never_cancelled:
  "never_cancelled client \<Longrightarrow>
   send_to_bulb client hist node_id endpoint mireds level ttime =
     Inr (hist @ bulb_commands endpoint mireds level ttime node_id)"
  by (simp add: send_to_bulb_def try_send_never_cancelled bulb_commands_def)

lemma send_to_each_bulb_never_cancelled:
  "never_cancelled client \<Longrightarrow>
   send_to_each_bulb client endpoint mireds level ttime nodes hist =
     Inr (hist @ concat (map (bulb_commands endpoint mireds level ttime) nodes))"
  by (induction nodes arbitrary: hist) (simp_all add: send_to_bulb_never_cancelled)

lemma never_cancelled_failing_client: "never_cancelled failing_client"
  by (auto simp: never_cancelled_def failing_client_def split: effect.splits if_splits)



text \<open>
  C7: in a dispatch that is not deduplicated and not a dry run, with a client whose calls
  may fail with any \<^verbatim>\<open>Exception\<close>, both commands are issued to every bulb of the zone,
  in order, and the zone's state becomes the colour and brightness just computed.
\<close>

theorem zone_dispatch_tolerates_failures:
  assumes "clamp_brightness (brightness cmd) (brightness_multiplier zone_cfg) = Inr level"
    and "kelvin_to_mireds (kelvin cmd) (min_kelvin zone_cfg) (max_kelvin zone_cfg) = Inr mireds"
    and "\<not> (last_mireds st \<noteq> - 1
            \<and> \<bar>mireds - last_mireds st\<bar> < dedup_mireds_threshold config
            \<and> \<bar>level - last_brightness st\<bar> < dedup_brightness_threshold config)"
    and "never_cancelled client"
  shows "send_zone_command client hist zone_cfg st cmd config False =
           Inr (st\<lparr>last_mireds := mireds, last_brightness := level\<rparr>,
                hist @ concat (map (bulb_commands (endpoint_id zone_cfg) mireds level
                                      (transition cmd))
                                 (node_ids zone_cfg)))"
  using assms
  by (auto simp: send_zone_command_def send_to_each_bulb_never_cancelled)

theorem zone_dispatch_tolerates_failures_witness:
  "never_cancelled failing_client
   \<and> failing_client [] (DeviceCommand 1 1 (MoveToColorTemperature 153 8 1 1))
       = Some OtherException
   \<and> send_zone_command failing_client [] ceiling_zone ZoneState_init
     \<lparr>zone = ''ceiling'', kelvin = 6500, brightness = 254, transition = 8\<rparr> default_config False
     = Inr (\<lparr>last_mireds = 153, last_brightness = 254\<rparr>,
            [DeviceCommand 1 1 (MoveToColorTemperature 153 8 1 1),
             DeviceCommand 1 1 (MoveToLevelWithOnOff 254 8 0 0),
             DeviceCommand 2 1 (MoveToColorTemperature 153 8 1 1),
             DeviceCommand 2 1 (MoveToLevelWithOnOff 254 8 0 0)])"
  using never_cancelled_failing_client
    zone_dispatch_tolerates_failures [of
      "\<lparr>zone = ''ceiling'', kelvin = 6500, brightness = 254, transition = 8\<rparr>"
      ceiling_zone 254 153 ZoneState_init default_config failing_client "[]"]
  by (simp add: ceiling_zone_def default_config_def ZoneState_init_def
      kelvin_to_mireds_6500 clamp_brightness_254 bulb_commands_def failing_client_def)

section \<open>Properties of the command queue\<close>

lemma drain_queue_loop_eq:
  "drain_queue_loop q n = (n + int (length (items q)), q\<lparr>items := []\<rparr>)"
proof (induction q n rule: drain_queue_loop.induct)
  case (1 q count)
  show ?case
  proof (cases "items q")
    case Nil
    then show ?thesis
      by (subst drain_queue_loop.simps) (simp add: queue_empty_def)
  next
    case (Cons x xs)
    then have g: "get_nowait q = Inr (x, q\<lparr>items := xs\<rparr>)"
      by (simp add: get_nowait_def)
    have ne: "\<not> queue_empty q"
      using Cons by (simp add: queue_empty_def)
    from "1.IH" [OF ne g refl]
    show ?thesis
      using Cons by (subst drain_queue_loop.simps) (simp add: ne g)
  qed
qed

lemma drain_queue_eq: "drain_queue q = (int (length (items q)), q\<lparr>items := []\<rparr>)"
  unfolding drain_queue_def drain_queue_loop_eq by simp

lemma reconnect_connected_eq:
  "reconnect_connected config q =
     (Finite (reconnect_initial_delay config), q\<lparr>items := []\<rparr>)"
  by (simp add: reconnect_connected_def drain_queue_eq)

lemma enqueue_not_full:
  "\<not> queue_full q \<Longrightarrow> datagram_received_enqueue q c = Inr (q\<lparr>items := items q @ [c]\<rparr>)"
  by (simp add: datagram_received_enqueue_def put_nowait_def)

lemma enqueue_full:
  assumes "queue_full q" and "maxsize q = 100" and "qsize q = 100"
  shows "datagram_received_enqueue q c = Inr (q\<lparr>items := tl (items q) @ [c]\<rparr>)"
proof -
  obtain x xs where xs: "items q = x # xs"
    using assms(3) by (cases "items q") (auto simp: qsize_def)
  then have len: "length xs = 99"
    using assms(3) by (simp add: qsize_def)
  have p: "put_nowait q c = Inl QueueFull"
    using assms(1) by (simp add: put_nowait_def)
  have g: "get_nowait q = Inr (x, q\<lparr>items := xs\<rparr>)"
    using xs by (simp add: get_nowait_def)
  have nf: "\<not> queue_full (q\<lparr>items := xs\<rparr>)"
    using assms(2) len by (simp add: queue_full_def qsize_def)
  show ?thesis
    using p g nf xs by (simp add: datagram_received_enqueue_def put_nowait_def)
qed

lemma enqueue_bounded:
  assumes "maxsize q = 100" and "qsize q \<le> 100"
  shows "datagram_received_enqueue q c =
           Inr (q\<lparr>items := (if qsize q = 100 then tl (items q) else items q) @ [c]\<rparr>)"
proof (cases "qsize q = 100")
  case True
  then have "queue_full q"
    using assms by (simp add: queue_full_def)
  then show ?thesis
    using enqueue_full [of q c] assms True by simp
next
  case False
  then have "\<not> queue_full q"
    using assms by (simp add: queue_full_def)
  then show ?thesis
    using enqueue_not_full [of q c] False by simp
qed

lemma enqueue_queue_ok:
  assumes "queue_ok q" and "datagram_received_enqueue q c = Inr q'"
  shows "queue_ok q'"
proof -
  have "datagram_received_enqueue q c =
           Inr (q\<lparr>items := (if qsize q = 100 then tl (items q) else items q) @ [c]\<rparr>)"
    using assms(1) enqueue_bounded [of q c] by (simp add: queue_ok_def)
  then have "q' = q\<lparr>items := (if qsize q = 100 then tl (items q) else items q) @ [c]\<rparr>"
    using assms(2) by simp
  then show ?thesis
    using assms(1) by (auto simp: queue_ok_def qsize_def)
qed

lemma datagram_received_queue_ok:
  assumes "queue_ok q" and "datagram_received L known q data = Inr q'"
  shows "queue_ok q'"
  using assms
  by (auto simp: datagram_received_def split: sum.splits ingest.splits
      dest: enqueue_queue_ok)

lemma get_nowait_queue_ok:
  "queue_ok q \<Longrightarrow> get_nowait q = Inr (c, q') \<Longrightarrow> queue_ok q'"
  by (auto simp: get_nowait_def queue_ok_def qsize_def split: list.splits)

lemma after_exception_queue [simp]: "queue (after_exception config e s) = queue s"
  by (simp add: after_exception_def split: loop_action.splits)

lemma step_queue_ok:
  assumes "queue_ok (queue s)" and "step L client config ev s = Some s'"
  shows "queue_ok (queue s')"
proof (cases ev)
  case (Recv data)
  then show ?thesis
    using assms datagram_received_queue_ok [OF assms(1)]
    by (auto simp: step_def split: if_splits sum.splits)
next
  case ConnectOk
  then show ?thesis
    using assms
    by (auto simp: step_def reconnect_connected_eq queue_ok_def qsize_def split: if_splits)
next
  case (Raised e)
  then show ?thesis
    using assms by (auto simp: step_def split: if_splits)
next
  case (Dispatch cmd)
  then show ?thesis
    using assms get_nowait_queue_ok [OF assms(1)]
    by (auto simp: step_def split: if_splits sum.splits prod.splits)
qed

lemma run_queue_ok:
  "queue_ok (queue s) \<Longrightarrow> run L client config evs s = Some s' \<Longrightarrow> queue_ok (queue s')"
proof (induction evs arbitrary: s)
  case Nil
  then show ?case by simp
next
  case (Cons ev evs)
  then show ?case
    by (auto split: option.splits dest: step_queue_ok)
qed

lemma run_bridge_queue_ok: "queue_ok (queue (run_bridge config dry_run))"
  by (simp add: run_bridge_def Queue_init_def queue_ok_def qsize_def)

text \<open>The scenario packet is accepted; a hundred of them fill the queue.\<close>

lemma noon_packet_command:
  "datagram_received_command (packet_lib noon_packet) (dom (zones default_config)) data
     = Inr (Command noon_command)"
  by (simp add: datagram_received_command_def packet_lib_def noon_packet_def
      command_packet_def REQUIRED_FIELDS_def dict_get_def make_UdpCommand_def
      default_config_def noon_command_def)

lemma noon_received:
  "datagram_received (packet_lib noon_packet) (dom (zones default_config)) (Queue_init 100) data
     = Inr \<lparr>maxsize = 100, items = [noon_command]\<rparr>"
  by (simp add: datagram_received_def noon_packet_command datagram_received_enqueue_def
      put_nowait_def queue_full_def qsize_def Queue_init_def)

lemma noon_recv_step:
  assumes "running (phase s)" and "maxsize (queue s) = 100"
    and "length (items (queue s)) < 100"
  shows "step (packet_lib noon_packet) client default_config (Recv data) s
         = Some (s\<lparr>queue := (queue s)\<lparr>items := items (queue s) @ [noon_command]\<rparr>\<rparr>)"
proof -
  have "\<not> queue_full (queue s)"
    using assms(2,3) by (simp add: queue_full_def qsize_def)
  then have "datagram_received (packet_lib noon_packet) (dom (zones default_config))
               (queue s) data
             = Inr ((queue s)\<lparr>items := items (queue s) @ [noon_command]\<rparr>)"
    by (simp add: datagram_received_def noon_packet_command enqueue_not_full)
  then show ?thesis
    using assms(1) by (simp add: step_def)
qed

lemma noon_recv_run:
  assumes "running (phase s)" and "maxsize (queue s) = 100"
    and "length (items (queue s)) + n \<le> 100"
  shows "run (packet_lib noon_packet) client default_config (replicate n (Recv data)) s
         = Some (s\<lparr>queue := (queue s)\<lparr>items := items (queue s) @ replicate n noon_command\<rparr>\<rparr>)"
  using assms
proof (induction n arbitrary: s)
  case 0
  then show ?case by simp
next
  case (Suc n)
  let ?s1 = "s\<lparr>queue := (queue s)\<lparr>items := items (queue s) @ [noon_command]\<rparr>\<rparr>"
  have st: "step (packet_lib noon_packet) client default_config (Recv data) s = Some ?s1"
    using Suc.prems by (intro noon_recv_step) simp_all
  have "run (packet_lib noon_packet) client default_config (replicate n (Recv data)) ?s1
        = Some (?s1\<lparr>queue := (queue ?s1)
                   \<lparr>items := items (queue ?s1) @ replicate n noon_command\<rparr>\<rparr>)"
    using Suc.prems by (intro Suc.IH) simp_all
  then show ?case
    using st by (simp add: replicate_app_Cons_same)
qed

lemma full_state_run:
  "run (packet_lib noon_packet) failing_client default_config (replicate 100 (Recv []))
     (run_bridge default_config True) = Some full_state"
proof -
  have "run (packet_lib noon_packet) failing_client default_config (replicate 100 (Recv []))
          (run_bridge default_config True)
        = Some ((run_bridge default_config True)
             \<lparr>queue := (queue (run_bridge default_config True))
                \<lparr>items := items (queue (run_bridge default_config True))
                           @ replicate 100 noon_command\<rparr>\<rparr>)"
    by (intro noon_recv_run) (simp_all add: run_bridge_def Queue_init_def)
  then show ?thesis
    by (simp add: full_state_def run_bridge_def Queue_init_def)
qed

text \<open>
  C3: in every state the bridge reaches the queue has capacity 100 and holds at most 100
  commands, and enqueuing a command there returns at once, without raising: the new
  command is the last of the queue, which again holds at most 100 commands, and when
  the queue held 100 its oldest command is the one that is gone.
\<close>

theorem queue_bounded_drops_oldest:
  assumes "run L client config evs (run_bridge config dry_run) = Some s"
  shows "maxsize (queue s) = 100 \<and> qsize (queue s) \<le> 100
       \<and> (\<exists>q'. datagram_received_enqueue (queue s) cmd = Inr q'
              \<and> maxsize q' = 100 \<and> qsize q' \<le> 100
              \<and> items q' = (if qsize (queue s) = 100 then tl (items (queue s))
                            else items (queue s)) @ [cmd])"
proof -
  have ok: "queue_ok (queue s)"
    using run_queue_ok [OF run_bridge_queue_ok assms] .
  then have eq: "datagram_received_enqueue (queue s) cmd =
      Inr ((queue s)\<lparr>items := (if qsize (queue s) = 100 then tl (items (queue s))
                                else items (queue s)) @ [cmd]\<rparr>)"
    using enqueue_bounded [of "queue s" cmd] by (simp add: queue_ok_def)
  show ?thesis
    using ok eq by (auto simp: queue_ok_def qsize_def)
qed


theorem queue_bounded_drops_oldest_witness:
  "run (packet_lib noon_packet) failing_client default_config (replicate 100 (Recv []))
     (run_bridge default_config True) = Some full_state
   \<and> qsize (queue full_state) = 100
   \<and> datagram_received_enqueue (queue full_state) night_command
       = Inr \<lparr>maxsize = 100, items = replicate 99 noon_command @ [night_command]\<rparr>"
  using full_state_run queue_bounded_drops_oldest [OF full_state_run, of night_command]
  by (auto simp: full_state_def qsize_def)

section \<open>Properties of the zone state store\<close>

lemma kelvin_to_mireds_positive_bound:
  assumes "0 < lo"
  shows "kelvin_to_mireds k lo hi = Inr (1000000 div max lo (min hi k))"
proof -
  have pos: "0 < max lo (min hi k)"
    using assms by simp
  then have "kelvin_to_mireds k lo hi =
      int_of_float (Finite (1000000 / of_int (max lo (min hi k))))"
    by (simp add: kelvin_to_mireds_def Let_def)
  then show ?thesis
    using int_of_float_quotient [OF pos] by simp
qed

lemma kelvin_to_mireds_nonneg:
  assumes "0 < lo" and "kelvin_to_mireds k lo hi = Inr m"
  shows "0 \<le> m"
proof -
  have "0 < max lo (min hi k)"
    using assms(1) by simp
  then have "0 \<le> (1000000::int) div max lo (min hi k)"
    by (simp add: pos_imp_zdiv_nonneg_iff)
  then show ?thesis
    using assms kelvin_to_mireds_positive_bound [OF assms(1), of k hi] by simp
qed

lemma send_zone_command_state_ok:
  assumes "0 < min_kelvin zc" and "state_ok st"
    and "send_zone_command client hist zc st cmd config dry = Inr (st', hist')"
  shows "state_ok st'"
proof -
  obtain level where l: "clamp_brightness (brightness cmd) (brightness_multiplier zc) = Inr level"
    using assms(3) by (auto simp: send_zone_command_def split: sum.splits)
  obtain mireds where m: "kelvin_to_mireds (kelvin cmd) (min_kelvin zc) (max_kelvin zc) = Inr mireds"
    using assms(3) l by (auto simp: send_zone_command_def split: sum.splits)
  have l0: "0 \<le> level"
    using clamp_brightness_range [OF l] by simp
  have m0: "0 \<le> mireds"
    using kelvin_to_mireds_nonneg [OF assms(1) m] .
  have "st' = st \<or> st' = st\<lparr>last_mireds := mireds, last_brightness := level\<rparr>"
    using assms(3) l m
    by (auto simp: send_zone_command_def Let_def split: if_splits sum.splits)
  then show ?thesis
    using assms(2) l0 m0 by (auto simp: state_ok_def)
qed

lemma command_loop_body_store_ok:
  assumes "zones_ok config" and "store_ok zs"
    and "command_loop_body client config dry zs hist cmd = Inr (zs', hist')"
  shows "store_ok zs'"
proof (cases "zones config (zone cmd)")
  case None
  then show ?thesis
    using assms by (simp add: command_loop_body_def)
next
  case (Some zc)
  then have pos: "0 < min_kelvin zc"
    using assms(1) by (simp add: zones_ok_def)
  obtain st where st: "zs (zone cmd) = Some st"
    using assms(3) Some by (auto simp: command_loop_body_def split: option.splits)
  obtain st' where s: "send_zone_command client hist zc st cmd config dry = Inr (st', hist')"
    and zs': "zs' = zs(zone cmd \<mapsto> st')"
    using assms(3) Some st by (auto simp: command_loop_body_def split: sum.splits)
  have "state_ok st"
    using assms(2) st by (simp add: store_ok_def)
  then have "state_ok st'"
    using send_zone_command_state_ok [OF pos _ s] by simp
  then show ?thesis
    using assms(2) zs' by (auto simp: store_ok_def)
qed

lemma after_exception_zone_states [simp]:
  "zone_states (after_exception config e s) = zone_states s"
  by (simp add: after_exception_def split: loop_action.splits)

lemma step_store_ok:
  assumes "zones_ok config" and "store_ok (zone_states s)"
    and "step L client config ev s = Some s'"
  shows "store_ok (zone_states s')"
proof (cases ev)
  case (Recv data)
  then show ?thesis
    using assms by (auto simp: step_def split: if_splits sum.splits)
next
  case ConnectOk
  then show ?thesis
    using assms by (auto simp: step_def split: if_splits prod.splits)
next
  case (Raised e)
  then show ?thesis
    using assms by (auto simp: step_def split: if_splits)
next
  case (Dispatch cmd)
  then show ?thesis
    using assms(2,3) command_loop_body_store_ok [OF assms(1,2)]
    by (auto simp: step_def split: if_splits sum.splits prod.splits)
qed

lemma run_store_ok:
  "zones_ok config \<Longrightarrow> store_ok (zone_states s) \<Longrightarrow> run L client config evs s = Some s'
   \<Longrightarrow> store_ok (zone_states s')"
proof (induction evs arbitrary: s)
  case Nil
  then show ?case by simp
next
  case (Cons ev evs)
  then show ?case
    by (auto split: option.splits dest: step_store_ok)
qed

lemma run_bridge_store_ok: "store_ok (zone_states (run_bridge config dry_run))"
  by (auto simp: run_bridge_def store_ok_def state_ok_def ZoneState_init_def)

lemma noon_send_dry_run:
  "send_zone_command failing_client [] ceiling_zone ZoneState_init noon_command
     default_config True
   = Inr (\<lparr>last_mireds = 153, last_brightness = 254\<rparr>,
          [DryRunPrint ''ceiling'' 6500 153 254 254 800 [1, 2]])"
  by (simp add: send_zone_command_def ceiling_zone_def noon_command_def ZoneState_init_def
      kelvin_to_mireds_6500 clamp_brightness_254)

lemma noon_body_dry_run:
  "command_loop_body failing_client default_config True
     (zone_states (run_bridge default_config True)) [] noon_command
   = Inr ((zone_states (run_bridge default_config True))
            (''ceiling'' \<mapsto> \<lparr>last_mireds = 153, last_brightness = 254\<rparr>),
          [DryRunPrint ''ceiling'' 6500 153 254 254 800 [1, 2]])"
proof -
  have n: "zone noon_command = ''ceiling''"
    by (simp add: noon_command_def)
  have z: "zones default_config ''ceiling'' = Some ceiling_zone"
    by (simp add: default_config_def)
  have st: "zone_states (run_bridge default_config True) ''ceiling'' = Some ZoneState_init"
    by (simp add: run_bridge_def z)
  show ?thesis
    by (simp add: command_loop_body_def n z st noon_send_dry_run)
qed

lemma noon_dry_run:
  "run (packet_lib noon_packet) failing_client default_config [Recv [], Dispatch noon_command]
     (run_bridge default_config True) = Some noon_state"
proof -
  have p: "phase (run_bridge default_config True) = DryRun"
    and q: "queue (run_bridge default_config True) = Queue_init 100"
    and i: "issued (run_bridge default_config True) = []"
    by (simp_all add: run_bridge_def)
  have s1: "step (packet_lib noon_packet) failing_client default_config (Recv [])
              (run_bridge default_config True)
            = Some ((run_bridge default_config True)
                      \<lparr>queue := \<lparr>maxsize = 100, items = [noon_command]\<rparr>\<rparr>)"
    by (simp add: step_def p q noon_received)
  have s2: "step (packet_lib noon_packet) failing_client default_config (Dispatch noon_command)
              ((run_bridge default_config True)
                 \<lparr>queue := \<lparr>maxsize = 100, items = [noon_command]\<rparr>\<rparr>)
            = Some noon_state"
    by (simp add: step_def p i get_nowait_def noon_body_dry_run noon_state_def)
  show ?thesis
    by (simp add: s1 s2)
qed

lemma zones_ok_default_config: "zones_ok default_config"
  by (simp add: zones_ok_def default_config_def ceiling_zone_def)

lemma kelvin_to_mireds_negative: "kelvin_to_mireds (- 700000) (- 1000000) (- 500000) = Inr (- 1)"
  by code_simp

lemma negative_send_dry_run:
  "send_zone_command failing_client [] negative_zone ZoneState_init negative_command
     negative_config True
   = Inr (\<lparr>last_mireds = - 1, last_brightness = 254\<rparr>,
          [DryRunPrint ''ceiling'' (- 700000) (- 1) 254 254 800 [1, 2]])"
  by (simp add: send_zone_command_def negative_zone_def ceiling_zone_def negative_command_def
      ZoneState_init_def kelvin_to_mireds_negative clamp_brightness_254)

lemma negative_packet_command:
  "datagram_received_command (packet_lib negative_packet) (dom (zones negative_config)) data
     = Inr (Command negative_command)"
  by (simp add: datagram_received_command_def packet_lib_def negative_packet_def
      command_packet_def REQUIRED_FIELDS_def dict_get_def make_UdpCommand_def
      negative_config_def default_config_def negative_command_def)

lemma negative_dry_run:
  "run (packet_lib negative_packet) failing_client negative_config
     [Recv [], Dispatch negative_command] (run_bridge negative_config True)
   = Some negative_state"
proof -
  have p: "phase (run_bridge negative_config True) = DryRun"
    and q: "queue (run_bridge negative_config True) = Queue_init 100"
    and i: "issued (run_bridge negative_config True) = []"
    by (simp_all add: run_bridge_def)
  have n: "zone negative_command = ''ceiling''"
    by (simp add: negative_command_def)
  have z: "zones negative_config ''ceiling'' = Some negative_zone"
    by (simp add: negative_config_def default_config_def)
  have st: "zone_states (run_bridge negative_config True) ''ceiling'' = Some ZoneState_init"
    by (simp add: run_bridge_def z)
  have recv: "datagram_received (packet_lib negative_packet) (dom (zones negative_config))
                (Queue_init 100) []
              = Inr \<lparr>maxsize = 100, items = [negative_command]\<rparr>"
    by (simp add: datagram_received_def negative_packet_command datagram_received_enqueue_def
        put_nowait_def queue_full_def qsize_def Queue_init_def)
  have s1: "step (packet_lib negative_packet) failing_client negative_config (Recv [])
              (run_bridge negative_config True)
            = Some ((run_bridge negative_config True)
                      \<lparr>queue := \<lparr>maxsize = 100, items = [negative_command]\<rparr>\<rparr>)"
    by (simp add: step_def p q recv)
  have body: "command_loop_body failing_client negative_config True
                (zone_states (run_bridge negative_config True)) [] negative_command
              = Inr ((zone_states (run_bridge negative_config True))
                       (''ceiling'' \<mapsto> \<lparr>last_mireds = - 1, last_brightness = 254\<rparr>),
                     [DryRunPrint ''ceiling'' (- 700000) (- 1) 254 254 800 [1, 2]])"
    by (simp add: command_loop_body_def n z st negative_send_dry_run)
  have s2: "step (packet_lib negative_packet) failing_client negative_config
              (Dispatch negative_command)
              ((run_bridge negative_config True)
                 \<lparr>queue := \<lparr>maxsize = 100, items = [negative_command]\<rparr>\<rparr>)
            = Some negative_state"
    by (simp add: step_def p i get_nowait_def body negative_state_def)
  show ?thesis
    by (simp add: s1 s2)
qed

text \<open>
  C10 (as the claim has it) fails: nothing keeps the zone bounds positive, and with the
  bounds \<open>-1000000\<close> and \<open>-500000\<close> the command with \<open>kelvin = -700000\<close> and
  \<open>brightness = 254\<close> leaves the zone with the colour \<open>-1\<close>, which is the sentinel, and
  the brightness \<open>254\<close>, which is not.
\<close>

theorem sentinel_colour_after_send:
  "run (packet_lib negative_packet) failing_client negative_config
     [Recv [], Dispatch negative_command] (run_bridge negative_config True)
   = Some negative_state
   \<and> zone_states negative_state ''ceiling''
       = Some \<lparr>last_mireds = - 1, last_brightness = 254\<rparr>"
  using negative_dry_run by (simp add: negative_state_def)

text \<open>
  C10 (with the zone invariant): when every zone's minimum colour temperature is
  positive, in every state the bridge reaches and for every zone, the stored colour is
  the sentinel \<open>-1\<close> if and only if the stored brightness is the sentinel \<open>-1\<close>.
\<close>

theorem sentinels_together:
  assumes "zones_ok config"
    and "run L client config evs (run_bridge config dry_run) = Some s"
    and "zone_states s z = Some st"
  shows "last_mireds st = - 1 \<longleftrightarrow> last_brightness st = - 1"
proof -
  have "store_ok (zone_states s)"
    using run_store_ok [OF assms(1) run_bridge_store_ok assms(2)] .
  then have "state_ok st"
    using assms(3) by (simp add: store_ok_def)
  then show ?thesis
    by (auto simp: state_ok_def)
qed


theorem sentinels_together_witness:
  "zones_ok default_config
   \<and> run (packet_lib noon_packet) failing_client default_config
       [Recv [], Dispatch noon_command] (run_bridge default_config True) = Some noon_state
   \<and> zone_states noon_state ''ceiling'' = Some \<lparr>last_mireds = 153, last_brightness = 254\<rparr>
   \<and> ((153::int) = - 1 \<longleftrightarrow> (254::int) = - 1)"
  using zones_ok_default_config noon_dry_run
    sentinels_together [OF zones_ok_default_config noon_dry_run, of "''ceiling''"
      "\<lparr>last_mireds = 153, last_brightness = 254\<rparr>"]
  by (simp add: noon_state_def)

section \<open>Properties of the reconnect loop\<close>

lemma enqueue_items:
  assumes "datagram_received_enqueue q c = Inr q'"
  shows "set (items q') \<subseteq> insert c (set (items q))"
proof -
  have tl: "\<And>x xs q1. get_nowait q = Inr (x, q1) \<Longrightarrow> set (items q1) \<subseteq> set (items q)"
    by (auto simp: get_nowait_def split: list.splits)
  show ?thesis
    using assms tl
    by (auto simp: datagram_received_enqueue_def put_nowait_def Let_def
        split: sum.splits if_splits prod.splits)
qed

lemma step_items:
  assumes "step L client config ev s = Some s'"
  shows "set (items (queue s'))
         \<subseteq> set (items (queue s)) \<union> {c. accepts L (dom (zones config)) ev c}"
proof (cases ev)
  case (Recv data)
  then show ?thesis
    using assms
    by (auto simp: step_def datagram_received_def
        split: if_splits sum.splits ingest.splits dest!: enqueue_items)
next
  case ConnectOk
  then show ?thesis
    using assms by (auto simp: step_def reconnect_connected_eq split: if_splits)
next
  case (Raised e)
  then show ?thesis
    using assms by (auto simp: step_def split: if_splits)
next
  case (Dispatch cmd)
  then show ?thesis
    using assms
    by (auto simp: step_def get_nowait_def
        split: if_splits sum.splits prod.splits list.splits)
qed

lemma step_dispatch_queued:
  assumes "step L client config (Dispatch c) s = Some s'"
  shows "c \<in> set (items (queue s))"
  using assms
  by (auto simp: step_def get_nowait_def split: if_splits sum.splits prod.splits list.splits)

lemma run_items:
  "run L client config evs s = Some s' \<Longrightarrow>
   set (items (queue s'))
     \<subseteq> set (items (queue s)) \<union> {c. \<exists>ev \<in> set evs. accepts L (dom (zones config)) ev c}"
proof (induction evs arbitrary: s)
  case Nil
  then show ?case by simp
next
  case (Cons ev evs)
  then obtain s1 where s1: "step L client config ev s = Some s1"
    and r: "run L client config evs s1 = Some s'"
    by (auto split: option.splits)
  show ?case
    using Cons.IH [OF r] step_items [OF s1] by auto
qed

lemma run_append:
  "run L client config (evs @ evs') s =
     (case run L client config evs s of
        None \<Rightarrow> None
      | Some s1 \<Rightarrow> run L client config evs' s1)"
  by (induction evs arbitrary: s) (auto split: option.splits)

lemma accepts_Recv:
  "accepts L known ev c \<Longrightarrow> \<exists>data. ev = Recv data
      \<and> datagram_received_command L known data = Inr (Command c)"
  by (cases ev) auto

lemma kelvin_to_mireds_2700: "kelvin_to_mireds 2700 2700 6500 = Inr 370"
  by code_simp

lemma stale_run:
  "run scenario_lib failing_client default_config [Recv ''noon'']
     (run_bridge default_config False) = Some stale_state"
  by (simp add: step_def run_bridge_def stale_state_def datagram_received_def
      datagram_received_command_def scenario_lib_def noon_packet_def command_packet_def
      REQUIRED_FIELDS_def dict_get_def make_UdpCommand_def default_config_def
      datagram_received_enqueue_def put_nowait_def queue_full_def qsize_def Queue_init_def
      noon_command_def)

lemma stale_connect:
  "step scenario_lib failing_client default_config ConnectOk stale_state
     = Some connected_state"
  by (simp add: step_def stale_state_def connected_state_def run_bridge_def
      reconnect_connected_eq default_config_def)

lemma night_packet_command:
  "datagram_received_command scenario_lib (dom (zones default_config)) ''night''
     = Inr (Command night_command)"
  by (simp add: datagram_received_command_def scenario_lib_def night_packet_def
      command_packet_def REQUIRED_FIELDS_def dict_get_def make_UdpCommand_def
      default_config_def night_command_def)

lemma night_send:
  "send_zone_command failing_client [] ceiling_zone ZoneState_init night_command
     default_config False
   = Inr (\<lparr>last_mireds = 370, last_brightness = 20\<rparr>,
          bulb_commands 1 370 20 8 1 @ bulb_commands 1 370 20 8 2)"
proof -
  have "send_to_each_bulb failing_client 1 370 20 8 [1, 2] []
        = Inr ([] @ concat (map (bulb_commands 1 370 20 8) [1, 2]))"
    using never_cancelled_failing_client by (rule send_to_each_bulb_never_cancelled)
  then show ?thesis
    by (simp add: send_zone_command_def ceiling_zone_def night_command_def ZoneState_init_def
      kelvin_to_mireds_2700 clamp_brightness_20)
qed

lemma night_received_step:
  "step scenario_lib failing_client default_config (Recv ''night'') connected_state
     = Some queued_state"
proof -
  have recv: "datagram_received scenario_lib (dom (zones default_config))
                \<lparr>maxsize = 100, items = []\<rparr> ''night''
              = Inr \<lparr>maxsize = 100, items = [night_command]\<rparr>"
    by (simp add: datagram_received_def night_packet_command datagram_received_enqueue_def
        put_nowait_def queue_full_def qsize_def)
  show ?thesis
    by (simp add: step_def connected_state_def run_bridge_def recv queued_state_def)
qed

lemma night_dispatch_step:
  "step scenario_lib failing_client default_config (Dispatch night_command) queued_state
     = Some night_state"
proof -
  have p: "phase connected_state = Connected"
    and i: "issued connected_state = []"
    by (simp_all add: connected_state_def run_bridge_def)
  have n: "zone night_command = ''ceiling''"
    by (simp add: night_command_def)
  have z: "zones default_config ''ceiling'' = Some ceiling_zone"
    by (simp add: default_config_def)
  have st: "zone_states connected_state ''ceiling'' = Some ZoneState_init"
    by (simp add: connected_state_def run_bridge_def z)
  have body: "command_loop_body failing_client default_config False
                (zone_states connected_state) [] night_command
              = Inr ((zone_states connected_state)
                       (''ceiling'' \<mapsto> \<lparr>last_mireds = 370, last_brightness = 20\<rparr>),
                     bulb_commands 1 370 20 8 1 @ bulb_commands 1 370 20 8 2)"
    by (simp add: command_loop_body_def n z st night_send)
  show ?thesis
    by (simp add: step_def queued_state_def p i get_nowait_def body night_state_def)
qed

lemma night_run:
  "run scenario_lib failing_client default_config ([Recv ''night''] @ Dispatch night_command # [])
     connected_state = Some night_state"
  by (simp add: night_received_step night_dispatch_step)


text \<open>
  C4: when the connection attempt succeeds the bridge is connected with the queue
  drained, all commands queued until then being discarded and counted, before the
  command loop takes anything; so every command the loop dispatches afterwards is the
  command of a packet that arrived after the connection and before that dispatch.
\<close>

theorem reconnect_drains_queue:
  assumes "step L client config ConnectOk s = Some s1"
    and "run L client config (pre @ Dispatch c # post) s1 = Some s2"
  shows "phase s1 = Connected
       \<and> drain_queue (queue s) = (int (qsize (queue s)), queue s1)
       \<and> items (queue s1) = []
       \<and> (\<exists>data. Recv data \<in> set pre
              \<and> datagram_received_command L (dom (zones config)) data = Inr (Command c))"
proof -
  have s1: "s1 = s\<lparr>queue := (queue s)\<lparr>items := []\<rparr>,
                   delay := Finite (reconnect_initial_delay config), phase := Connected\<rparr>"
    using assms(1) by (auto simp: step_def reconnect_connected_eq split: if_splits)
  obtain sa where sa: "run L client config pre s1 = Some sa"
    and rest: "run L client config (Dispatch c # post) sa = Some s2"
    using assms(2) by (auto simp: run_append split: option.splits)
  obtain sb where "step L client config (Dispatch c) sa = Some sb"
    using rest by (auto split: option.splits)
  then have "c \<in> set (items (queue sa))"
    by (rule step_dispatch_queued)
  then have "\<exists>ev \<in> set pre. accepts L (dom (zones config)) ev c"
    using run_items [OF sa] s1 by auto
  then have "\<exists>data. Recv data \<in> set pre
              \<and> datagram_received_command L (dom (zones config)) data = Inr (Command c)"
    using accepts_Recv by blast
  then show ?thesis
    using s1 by (simp add: drain_queue_eq qsize_def)
qed


theorem reconnect_drains_queue_witness:
  "run scenario_lib failing_client default_config [Recv ''noon'']
     (run_bridge default_config False) = Some stale_state
   \<and> items (queue stale_state) = [noon_command]
   \<and> step scenario_lib failing_client default_config ConnectOk stale_state
       = Some connected_state
   \<and> run scenario_lib failing_client default_config
       ([Recv ''night''] @ Dispatch night_command # []) connected_state = Some night_state
   \<and> items (queue connected_state) = []
   \<and> datagram_received_command scenario_lib (dom (zones default_config)) ''night''
       = Inr (Command night_command)"
  using stale_run stale_connect night_run night_packet_command
    reconnect_drains_queue [OF stale_connect night_run]
  by (simp add: stale_state_def)

lemma reconnect_except_recoverable:
  "recoverable e \<Longrightarrow>
   reconnect_except config d e =
     Retry d (py_min (float_mul d (Finite (reconnect_multiplier config)))
                (Finite (reconnect_max_delay config)))"
  by (auto simp: recoverable_def reconnect_except_def)

lemma py_min_capped:
  "p \<noteq> NaN \<Longrightarrow> float_le (py_min p (Finite mx)) (Finite mx)"
  by (cases p) (auto simp: py_min_def)

lemma float_mul_not_NaN:
  assumes "d = NegInf \<longrightarrow> m \<noteq> 0" and "d \<noteq> NaN" and "d \<noteq> PosInf"
  shows "float_mul d (Finite m) \<noteq> NaN"
  using assms by (cases d) (auto simp: round_binary64_not_NaN)

lemma float_mul_NegInf:
  assumes "float_mul d (Finite m) = NegInf"
  shows "m \<noteq> 0"
  using assms by (cases d) (auto simp: round_binary64_0 split: if_splits)

lemma py_min_NegInf: "py_min p (Finite mx) = NegInf \<Longrightarrow> p = NegInf"
  by (cases p) (auto simp: py_min_def split: if_splits)

lemma float_le_cases:
  "float_le d (Finite mx) \<Longrightarrow> d \<noteq> NaN \<and> d \<noteq> PosInf"
  by (cases d) auto

lemma live_ok_next_delay:
  assumes "live_ok config s"
  shows "float_le (py_min (float_mul (delay s) (Finite (reconnect_multiplier config)))
                     (Finite (reconnect_max_delay config)))
           (Finite (reconnect_max_delay config))"
proof -
  have "delay s \<noteq> NaN \<and> delay s \<noteq> PosInf"
    using assms float_le_cases [of "delay s" "reconnect_max_delay config"]
    by (auto simp: live_ok_def)
  moreover have "delay s = NegInf \<longrightarrow> reconnect_multiplier config \<noteq> 0"
    using assms by (simp add: live_ok_def)
  ultimately have "float_mul (delay s) (Finite (reconnect_multiplier config)) \<noteq> NaN"
    by (intro float_mul_not_NaN) simp_all
  then show ?thesis
    by (rule py_min_capped)
qed

lemma after_exception_live_ok:
  assumes "live_ok config s"
  shows "live_ok config (after_exception config e s)
       \<or> \<not> running (phase (after_exception config e s))"
proof (cases "recoverable e")
  case True
  let ?d = "py_min (float_mul (delay s) (Finite (reconnect_multiplier config)))
              (Finite (reconnect_max_delay config))"
  have a: "after_exception config e s = s\<lparr>delay := ?d, phase := Connecting\<rparr>"
    using assms True
    by (simp add: after_exception_def live_ok_def reconnect_except_recoverable)
  have "float_le ?d (Finite (reconnect_max_delay config))"
    using assms by (rule live_ok_next_delay)
  moreover have "?d = NegInf \<longrightarrow> reconnect_multiplier config \<noteq> 0"
    using py_min_NegInf float_mul_NegInf by blast
  ultimately have "live_ok config (s\<lparr>delay := ?d, phase := Connecting\<rparr>)"
    by (simp add: live_ok_def)
  then show ?thesis
    using a by simp
next
  case False
  then have "\<exists>e'. reconnect_except config (delay s) e = Raise e'"
    by (auto simp: recoverable_def reconnect_except_def)
  then show ?thesis
    using assms by (auto simp: after_exception_def live_ok_def)
qed

lemma step_live_ok:
  assumes "live_ok config s" and "step L client config ev s = Some s'"
  shows "live_ok config s' \<or> \<not> running (phase s')"
proof (cases ev)
  case (Recv data)
  then show ?thesis
    using assms by (auto simp: step_def live_ok_def split: if_splits sum.splits)
next
  case ConnectOk
  then show ?thesis
    using assms
    by (auto simp: step_def live_ok_def reconnect_connected_eq split: if_splits)
next
  case (Raised e)
  then show ?thesis
    using assms after_exception_live_ok [OF assms(1), of e]
    by (auto simp: step_def split: if_splits)
next
  case (Dispatch cmd)
  have q: "\<And>q'. live_ok config (s\<lparr>queue := q'\<rparr>)"
    using assms(1) by (simp add: live_ok_def)
  show ?thesis
    using Dispatch assms after_exception_live_ok [OF q]
    by (auto simp: step_def live_ok_def split: if_splits sum.splits prod.splits)
qed

lemma run_stopped: "\<not> running (phase s) \<Longrightarrow> run L client config evs s = Some s' \<Longrightarrow> s' = s"
  by (cases evs) (auto simp: step_def)

lemma run_live_ok:
  "live_ok config s \<Longrightarrow> run L client config evs s = Some s'
   \<Longrightarrow> live_ok config s' \<or> \<not> running (phase s')"
proof (induction evs arbitrary: s)
  case Nil
  then show ?case by simp
next
  case (Cons ev evs)
  then obtain s1 where s1: "step L client config ev s = Some s1"
    and r: "run L client config evs s1 = Some s'"
    by (auto split: option.splits)
  show ?case
  proof (cases "running (phase s1)")
    case True
    then have "live_ok config s1"
      using step_live_ok [OF Cons.prems(1) s1] by simp
    then show ?thesis
      using Cons.IH r by simp
  next
    case False
    then show ?thesis
      using run_stopped [OF False r] by simp
  qed
qed

lemma run_bridge_live_ok: "live_ok config (run_bridge config False)"
  by (simp add: live_ok_def run_bridge_def)

lemma backoff_first_failure:
  "run L failing_client default_config [Raised CannotConnect] (run_bridge default_config False)
     = Some (backoff_state 4 Connecting)"
  by (simp add: step_def run_bridge_def after_exception_def reconnect_except_def
      default_config_def backoff_state_def round_binary64_4 py_min_def)

text \<open>
  C6: in a running bridge, on a recoverable connection error (\<^verbatim>\<open>CannotConnect\<close>,
  \<^verbatim>\<open>ConnectionFailed\<close>, \<^verbatim>\<open>ConnectionResetError\<close>) the loop sleeps for the current delay,
  sets the delay to \<^verbatim>\<open>min(delay * multiplier, max_delay)\<close>, the product being the float
  product, which is at most the maximum, and goes on connecting instead of stopping; a
  successful connection sets the delay to the initial delay; and with an initial delay
  that is at most the maximum, the delay never exceeds the maximum.
\<close>

theorem backoff_capped_and_reset:
  assumes "run L client config evs (run_bridge config False) = Some s"
    and "running (phase s)" and "recoverable e"
  shows "reconnect_except config (delay s) e
           = Retry (delay s)
               (py_min (float_mul (delay s) (Finite (reconnect_multiplier config)))
                  (Finite (reconnect_max_delay config)))
       \<and> step L client config (Raised e) s
           = Some (s\<lparr>delay := py_min (float_mul (delay s) (Finite (reconnect_multiplier config)))
                                (Finite (reconnect_max_delay config)),
                     phase := Connecting\<rparr>)
       \<and> float_le (py_min (float_mul (delay s) (Finite (reconnect_multiplier config)))
                     (Finite (reconnect_max_delay config)))
           (Finite (reconnect_max_delay config))
       \<and> (\<forall>s'. step L client config ConnectOk s = Some s'
              \<longrightarrow> delay s' = Finite (reconnect_initial_delay config))
       \<and> (reconnect_initial_delay config \<le> reconnect_max_delay config
              \<longrightarrow> float_le (delay s) (Finite (reconnect_max_delay config)))"
proof -
  have ok: "live_ok config s"
    using run_live_ok [OF run_bridge_live_ok assms(1)] assms(2) by simp
  have r: "reconnect_except config (delay s) e
           = Retry (delay s)
               (py_min (float_mul (delay s) (Finite (reconnect_multiplier config)))
                  (Finite (reconnect_max_delay config)))"
    using assms(3) by (rule reconnect_except_recoverable)
  have st: "step L client config (Raised e) s
           = Some (s\<lparr>delay := py_min (float_mul (delay s) (Finite (reconnect_multiplier config)))
                                (Finite (reconnect_max_delay config)),
                     phase := Connecting\<rparr>)"
    using ok assms(2) r by (simp add: step_def after_exception_def live_ok_def)
  have cap: "float_le (py_min (float_mul (delay s) (Finite (reconnect_multiplier config)))
                     (Finite (reconnect_max_delay config)))
           (Finite (reconnect_max_delay config))"
    using ok by (rule live_ok_next_delay)
  have c: "\<forall>s'. step L client config ConnectOk s = Some s'
              \<longrightarrow> delay s' = Finite (reconnect_initial_delay config)"
    by (auto simp: step_def reconnect_connected_eq split: if_splits)
  have d: "reconnect_initial_delay config \<le> reconnect_max_delay config
              \<longrightarrow> float_le (delay s) (Finite (reconnect_max_delay config))"
    using ok by (auto simp: live_ok_def)
  show ?thesis
    using r st cap c d by simp
qed

theorem backoff_capped_and_reset_witness:
  "run scenario_lib failing_client default_config [Raised CannotConnect]
     (run_bridge default_config False) = Some (backoff_state 4 Connecting)
   \<and> running (phase (backoff_state 4 Connecting)) \<and> recoverable ConnectionResetError
   \<and> step scenario_lib failing_client default_config (Raised ConnectionResetError)
       (backoff_state 4 Connecting) = Some (backoff_state 8 Connecting)
   \<and> step scenario_lib failing_client default_config ConnectOk (backoff_state 4 Connecting)
       = Some (backoff_state 2 Connected)
   \<and> float_le (delay (backoff_state 4 Connecting))
       (Finite (reconnect_max_delay default_config))"
proof -
  have p: "running (phase (backoff_state 4 Connecting))"
    by (simp add: backoff_state_def)
  have e: "recoverable ConnectionResetError"
    by (simp add: recoverable_def)
  have c: "step scenario_lib failing_client default_config ConnectOk
             (backoff_state 4 Connecting) = Some (backoff_state 2 Connected)"
    by (simp add: step_def backoff_state_def run_bridge_def reconnect_connected_eq
        default_config_def Queue_init_def)
  show ?thesis
    using p e c backoff_first_failure [of scenario_lib]
      backoff_capped_and_reset [OF backoff_first_failure p e, of scenario_lib]
    by (simp add: backoff_state_def default_config_def round_binary64_8 py_min_def)
qed

section \<open>Properties of the exit status\<close>














end
